theory Spec2Isabelle
  imports Complex_Main "HOL-Library.Char_ord" "HOL-Library.List_Lexorder" "HOL-Library.Multiset"
begin

section \<open>Data model of the ledger-driven inventory service (src/app.py)\<close>

text \<open>
  The four SQL tables of \<^verbatim>\<open>init_db\<close> are lists of rows, in insertion (rowid) order.
  Identifiers are the strings produced by \<^verbatim>\<open>str(uuid.uuid4())\<close>; the program only
  compares them for equality, so they are natural numbers drawn from a counter that
  never repeats a value, and the primary keys never collide. The timestamp columns are
  written but never read by any operation and are left out of the rows. Lot codes are
  byte strings, compared as SQLite's default collation compares TEXT values: byte by
  byte, a proper prefix first.

  The requests are served on one sqlite3 connection (\<^verbatim>\<open>get_db\<close> keeps one per
  thread); \<open>in_transaction\<close> is the state in which a request leaves it. A handler
  that raises between \<^verbatim>\<open>BEGIN IMMEDIATE\<close> and \<^verbatim>\<open>conn.rollback()\<close> leaves the
  transaction open, and the next \<^verbatim>\<open>BEGIN IMMEDIATE\<close> on the connection fails.

  Quantities are SQL REAL and Python float in the source. They are exact rationals here:
  the theorems speak of the arithmetic without rounding, and what rounding does to a
  property is outside them.
\<close>

datatype qc_status = APPROVED | QUARANTINE | REJECTED

datatype txn_type = RECEIVE | RESERVE | UNRESERVE | ISSUE

datatype reservation_status = OPEN | ISSUED | CANCELLED

datatype error_code =
    INSUFFICIENT_STOCK
  | NO_QC_APPROVED_LOT
  | RESERVATION_NOT_FOUND
  | ITEM_NOT_FOUND
  | DUPLICATE_LOT_CODE
  | INVALID_QTY
  | RESERVATION_ALREADY_ISSUED
  | LOT_NOT_APPROVED
  | DUPLICATE_ITEM_CODE
  | LOT_NOT_FOUND
  | DATABASE_ERROR
  | INTERNAL_ERROR
  | VALIDATION_ERROR

record item_row =
  i_id :: nat
  i_code :: string
  i_name :: string
  i_qc_required :: bool

record lot_row =
  l_id :: nat
  l_item_id :: nat
  l_lot_code :: string
  l_received_qty :: rat
  l_qc_status :: qc_status

record ledger_row =
  led_id :: nat
  led_item_id :: nat
  led_lot_id :: "nat option"
  led_txn_type :: txn_type
  led_qty :: rat
  led_reservation_id :: "nat option"

record reservation_row =
  r_id :: nat
  r_item_id :: nat
  r_qty :: rat
  r_status :: reservation_status

record db =
  items :: "item_row list"
  inventory_lots :: "lot_row list"
  inventory_ledger :: "ledger_row list"
  reservations :: "reservation_row list"
  uuid_counter :: nat
  in_transaction :: bool

definition init_db :: db where
  "init_db = \<lparr>items = [], inventory_lots = [], inventory_ledger = [],
              reservations = [], uuid_counter = 0, in_transaction = False\<rparr>"

text \<open>\<^verbatim>\<open>uuid.uuid4()\<close>: the next unused identifier, and the database with the counter advanced.\<close>

definition uuid4 :: "db \<Rightarrow> nat \<times> db" where
  "uuid4 s = (uuid_counter s, s\<lparr>uuid_counter := Suc (uuid_counter s)\<rparr>)"

text \<open>
  Two databases hold the same rows in every table (the identifier counter and the state
  of the connection apart).
\<close>

definition same_tables :: "db \<Rightarrow> db \<Rightarrow> bool" where
  "same_tables s t \<longleftrightarrow>
     items s = items t \<and> inventory_lots s = inventory_lots t \<and>
     inventory_ledger s = inventory_ledger t \<and> reservations s = reservations t"

section \<open>Helper functions\<close>

text \<open>\<^verbatim>\<open>get_item\<close>: the row with the given id, or ITEM_NOT_FOUND (HTTP 404).\<close>

definition get_item :: "db \<Rightarrow> nat \<Rightarrow> error_code + item_row" where
  "get_item s item_id =
     (case find (\<lambda>i. i_id i = item_id) (items s) of
        None \<Rightarrow> Inl ITEM_NOT_FOUND
      | Some row \<Rightarrow> Inr row)"

record stock_summary =
  on_hand :: rat
  reserved :: rat
  available :: rat

text \<open>
  \<^verbatim>\<open>calculate_stock\<close>: the two SUM(CASE ...) aggregates over the item's ledger rows and
  the SUM over the item's OPEN reservations (COALESCE gives 0 on no rows, as the empty
  sum does).
\<close>

definition ledger_sum :: "db \<Rightarrow> nat \<Rightarrow> txn_type \<Rightarrow> rat" where
  "ledger_sum s item_id t =
     sum_list (map (\<lambda>e. if led_txn_type e = t then led_qty e else 0)
                   (filter (\<lambda>e. led_item_id e = item_id) (inventory_ledger s)))"

definition open_reserved :: "db \<Rightarrow> nat \<Rightarrow> rat" where
  "open_reserved s item_id =
     sum_list (map r_qty
       (filter (\<lambda>r. r_item_id r = item_id \<and> r_status r = OPEN) (reservations s)))"

definition calculate_stock :: "db \<Rightarrow> nat \<Rightarrow> stock_summary" where
  "calculate_stock s item_id =
     (let received = ledger_sum s item_id RECEIVE;
          issued = ledger_sum s item_id ISSUE;
          on_hand = received - issued;
          reserved = open_reserved s item_id;
          available = on_hand - reserved
      in \<lparr>on_hand = on_hand, reserved = reserved, available = available\<rparr>)"

text \<open>
  \<^verbatim>\<open>get_available_lots\<close>: the APPROVED lots of the item, each joined with the ledger rows
  that name it; \<open>issued_qty\<close> sums the ISSUE rows of the group, HAVING keeps the groups
  with a positive difference, ORDER BY \<open>lot_code\<close> ASC sorts them, and the Python loop
  adds the key \<open>available\<close>. The parameter \<open>required_qty\<close> is not used by the source.
\<close>

record lot_dict =
  ld_id :: nat
  ld_lot_code :: string
  ld_received_qty :: rat
  ld_qc_status :: qc_status
  ld_issued_qty :: rat
  ld_available :: rat

definition issued_qty_of :: "db \<Rightarrow> nat \<Rightarrow> rat" where
  "issued_qty_of s lot_id =
     sum_list (map (\<lambda>e. if led_txn_type e = ISSUE then led_qty e else 0)
                   (filter (\<lambda>e. led_lot_id e = Some lot_id) (inventory_ledger s)))"

definition lot_group :: "db \<Rightarrow> lot_row \<Rightarrow> lot_dict" where
  "lot_group s l =
     \<lparr>ld_id = l_id l, ld_lot_code = l_lot_code l, ld_received_qty = l_received_qty l,
      ld_qc_status = l_qc_status l, ld_issued_qty = issued_qty_of s (l_id l),
      ld_available = l_received_qty l - issued_qty_of s (l_id l)\<rparr>"

definition get_available_lots :: "db \<Rightarrow> nat \<Rightarrow> rat \<Rightarrow> lot_dict list" where
  "get_available_lots s item_id required_qty =
     sort_key ld_lot_code
       (filter (\<lambda>d. ld_received_qty d - ld_issued_qty d > 0)
          (map (lot_group s)
             (filter (\<lambda>l. l_item_id l = item_id \<and> l_qc_status l = APPROVED)
                     (inventory_lots s))))"

text \<open>
  \<^verbatim>\<open>cursor.execute("BEGIN IMMEDIATE")\<close> raises \<^verbatim>\<open>sqlite3.OperationalError\<close> (no
  result here) when the connection is inside a transaction, and opens one otherwise.
  \<^verbatim>\<open>conn.commit()\<close> keeps the rows written and closes the transaction.
  \<^verbatim>\<open>conn.rollback()\<close> closes it with the tables as they were when it began;
  identifiers already drawn stay drawn.
\<close>

definition begin_immediate :: "db \<Rightarrow> db option" where
  "begin_immediate s = (if in_transaction s then None else Some (s\<lparr>in_transaction := True\<rparr>))"

definition commit :: "db \<Rightarrow> db" where
  "commit s = s\<lparr>in_transaction := False\<rparr>"

definition rollback :: "db \<Rightarrow> db \<Rightarrow> db" where
  "rollback at_begin cur =
     at_begin\<lparr>uuid_counter := uuid_counter cur, in_transaction := False\<rparr>"

section \<open>Endpoints\<close>

text \<open>
  Every endpoint returns the HTTP outcome (an error code or the response body) and the
  database after the request. A request body that fails the pydantic constraints
  (\<^verbatim>\<open>Field(gt=0)\<close>, the \<^verbatim>\<open>Literal\<close> of the QC endpoint) is rejected with HTTP 422
  before the handler runs: VALIDATION_ERROR. An exception that is not an HTTPException
  is answered by \<^verbatim>\<open>except Exception\<close>: rollback and HTTP 500, INTERNAL_ERROR.
\<close>

text \<open>
  \<^verbatim>\<open>create_item\<close> has no explicit BEGIN: sqlite3 opens a transaction before the INSERT.
  On a duplicate code the handler raises without commit or rollback.
\<close>

definition create_item :: "db \<Rightarrow> string \<Rightarrow> string \<Rightarrow> bool \<Rightarrow> (error_code + item_row) \<times> db" where
  "create_item s code name qc_required =
     (let (item_id, s1) = uuid4 s;
          s2 = s1\<lparr>in_transaction := True\<rparr>
      in if code \<in> set (map i_code (items s2))
         then (Inl DUPLICATE_ITEM_CODE, s2)
         else (let row = \<lparr>i_id = item_id, i_code = code, i_name = name,
                           i_qc_required = qc_required\<rparr>
               in (Inr row, commit (s2\<lparr>items := items s2 @ [row]\<rparr>))))"

text \<open>
  \<^verbatim>\<open>receive_inventory\<close> looks the item up and draws its two identifiers before the
  \<^verbatim>\<open>try\<close> block.
\<close>

record receive_response =
  rc_lot_id :: nat
  rc_item_id :: nat
  rc_lot_code :: string
  rc_received_qty :: rat
  rc_qc_status :: qc_status

definition receive_inventory ::
  "db \<Rightarrow> nat \<Rightarrow> string \<Rightarrow> rat \<Rightarrow> (error_code + receive_response) \<times> db" where
  "receive_inventory s item_id lot_code qty =
     (if \<not> qty > 0 then (Inl VALIDATION_ERROR, s)
      else case get_item s item_id of
        Inl e \<Rightarrow> (Inl e, s)
      | Inr item \<Rightarrow>
          (let qc_status = (if i_qc_required item then QUARANTINE else APPROVED);
               (lot_id, s1) = uuid4 s;
               (ledger_id, s2) = uuid4 s1
           in case begin_immediate s2 of
                None \<Rightarrow> (Inl INTERNAL_ERROR, rollback s2 s2)
              | Some s3 \<Rightarrow>
                  if lot_code \<in> set (map l_lot_code (inventory_lots s3))
                  then (Inl DUPLICATE_LOT_CODE, rollback s s3)
                  else (let s4 = s3\<lparr>inventory_lots := inventory_lots s3 @
                                     [\<lparr>l_id = lot_id, l_item_id = item_id,
                                       l_lot_code = lot_code, l_received_qty = qty,
                                       l_qc_status = qc_status\<rparr>]\<rparr>;
                            s5 = s4\<lparr>inventory_ledger := inventory_ledger s4 @
                                     [\<lparr>led_id = ledger_id, led_item_id = item_id,
                                       led_lot_id = Some lot_id, led_txn_type = RECEIVE,
                                       led_qty = qty, led_reservation_id = None\<rparr>]\<rparr>
                        in (Inr \<lparr>rc_lot_id = lot_id, rc_item_id = item_id,
                                 rc_lot_code = lot_code, rc_received_qty = qty,
                                 rc_qc_status = qc_status\<rparr>, commit s5))))"

definition get_stock_summary :: "db \<Rightarrow> nat \<Rightarrow> error_code + stock_summary" where
  "get_stock_summary s item_id =
     (case get_item s item_id of
        Inl e \<Rightarrow> Inl e
      | Inr item \<Rightarrow> Inr (calculate_stock s item_id))"

record reserve_response =
  rv_reservation_id :: nat
  rv_item_id :: nat
  rv_qty :: rat
  rv_status :: reservation_status

text \<open>
  \<^verbatim>\<open>reserve_inventory\<close> calls \<^verbatim>\<open>get_item\<close> inside the transaction, and the
  HTTPException of an unknown item passes \<^verbatim>\<open>except HTTPException: raise\<close> with no
  rollback; the two stock errors roll back before they raise.
\<close>

definition reserve_inventory :: "db \<Rightarrow> nat \<Rightarrow> rat \<Rightarrow> (error_code + reserve_response) \<times> db" where
  "reserve_inventory s item_id qty =
     (if \<not> qty > 0 then (Inl VALIDATION_ERROR, s)
      else case begin_immediate s of
        None \<Rightarrow> (Inl INTERNAL_ERROR, rollback s s)
      | Some s0 \<Rightarrow>
         (case get_item s0 item_id of
            Inl e \<Rightarrow> (Inl e, s0)
          | Inr item \<Rightarrow>
              (let summary = calculate_stock s0 item_id
               in if available summary < qty then (Inl INSUFFICIENT_STOCK, rollback s s0)
                  else (let lots = get_available_lots s0 item_id qty
                        in if lots = [] then (Inl NO_QC_APPROVED_LOT, rollback s s0)
                           else (let (reservation_id, s1) = uuid4 s0;
                                     s2 = s1\<lparr>reservations := reservations s1 @
                                            [\<lparr>r_id = reservation_id, r_item_id = item_id,
                                              r_qty = qty, r_status = OPEN\<rparr>]\<rparr>;
                                     (ledger_id, s3) = uuid4 s2;
                                     s4 = s3\<lparr>inventory_ledger := inventory_ledger s3 @
                                            [\<lparr>led_id = ledger_id, led_item_id = item_id,
                                              led_lot_id = None, led_txn_type = RESERVE,
                                              led_qty = qty,
                                              led_reservation_id = Some reservation_id\<rparr>]\<rparr>
                                 in (Inr \<lparr>rv_reservation_id = reservation_id,
                                          rv_item_id = item_id, rv_qty = qty,
                                          rv_status = OPEN\<rparr>, commit s4))))))"

record issued_lot =
  il_lot_id :: nat
  il_lot_code :: string
  il_qty :: rat

record issue_response =
  is_reservation_id :: nat
  is_item_id :: nat
  is_qty :: rat
  is_lots_issued :: "issued_lot list"

text \<open>
  The loop \<^verbatim>\<open>for lot in lots\<close> of \<^verbatim>\<open>issue_inventory\<close>: it leaves at the first lot
  reached with nothing remaining, and otherwise inserts one ISSUE row for the lot.
\<close>

fun issue_loop ::
  "nat \<Rightarrow> nat \<Rightarrow> lot_dict list \<Rightarrow> rat \<Rightarrow> issued_lot list \<Rightarrow> db \<Rightarrow> issued_lot list \<times> db" where
  "issue_loop reservation_id item_id [] remaining_qty lots_issued s = (lots_issued, s)"
| "issue_loop reservation_id item_id (lot # lots) remaining_qty lots_issued s =
     (if remaining_qty \<le> 0 then (lots_issued, s)
      else (let qty_from_lot = min (ld_available lot) remaining_qty;
                (ledger_id, s1) = uuid4 s;
                s2 = s1\<lparr>inventory_ledger := inventory_ledger s1 @
                       [\<lparr>led_id = ledger_id, led_item_id = item_id,
                         led_lot_id = Some (ld_id lot), led_txn_type = ISSUE,
                         led_qty = qty_from_lot,
                         led_reservation_id = Some reservation_id\<rparr>]\<rparr>
            in issue_loop reservation_id item_id lots (remaining_qty - qty_from_lot)
                 (lots_issued @ [\<lparr>il_lot_id = ld_id lot, il_lot_code = ld_lot_code lot,
                                   il_qty = qty_from_lot\<rparr>]) s2))"

definition issue_inventory :: "db \<Rightarrow> nat \<Rightarrow> (error_code + issue_response) \<times> db" where
  "issue_inventory s reservation_id =
     (case begin_immediate s of
        None \<Rightarrow> (Inl INTERNAL_ERROR, rollback s s)
      | Some s0 \<Rightarrow>
         (case find (\<lambda>r. r_id r = reservation_id) (reservations s0) of
            None \<Rightarrow> (Inl RESERVATION_NOT_FOUND, rollback s s0)
          | Some reservation \<Rightarrow>
              if r_status reservation \<noteq> OPEN
              then (Inl RESERVATION_ALREADY_ISSUED, rollback s s0)
              else (let item_id = r_item_id reservation;
                        qty_to_issue = r_qty reservation;
                        lots = get_available_lots s0 item_id qty_to_issue
                    in if lots = [] then (Inl NO_QC_APPROVED_LOT, rollback s s0)
                       else (let total_available = sum_list (map ld_available lots)
                             in if total_available < qty_to_issue
                                then (Inl INSUFFICIENT_STOCK, rollback s s0)
                                else (let (lots_issued, s1) =
                                            issue_loop reservation_id item_id lots
                                              qty_to_issue [] s0;
                                          s2 = s1\<lparr>reservations :=
                                                 map (\<lambda>r. if r_id r = reservation_id
                                                           then r\<lparr>r_status := ISSUED\<rparr> else r)
                                                     (reservations s1)\<rparr>;
                                          (ledger_id, s3) = uuid4 s2;
                                          s4 = s3\<lparr>inventory_ledger := inventory_ledger s3 @
                                                 [\<lparr>led_id = ledger_id, led_item_id = item_id,
                                                   led_lot_id = None, led_txn_type = UNRESERVE,
                                                   led_qty = qty_to_issue,
                                                   led_reservation_id = Some reservation_id\<rparr>]\<rparr>
                                      in (Inr \<lparr>is_reservation_id = reservation_id,
                                               is_item_id = item_id, is_qty = qty_to_issue,
                                               is_lots_issued = lots_issued\<rparr>,
                                          commit s4))))))"

text \<open>
  \<^verbatim>\<open>update_lot_qc_status\<close>: the parameter type admits APPROVED and REJECTED only; the
  handler looks the lot up and overwrites its status, whatever the status was. For an
  unknown lot it raises inside the transaction, with no rollback.
\<close>

definition update_lot_qc_status ::
  "db \<Rightarrow> nat \<Rightarrow> qc_status \<Rightarrow> (error_code + nat \<times> qc_status) \<times> db" where
  "update_lot_qc_status s lot_id qc_status =
     (if qc_status = QUARANTINE then (Inl VALIDATION_ERROR, s)
      else case begin_immediate s of
        None \<Rightarrow> (Inl INTERNAL_ERROR, rollback s s)
      | Some s0 \<Rightarrow>
         (case find (\<lambda>l. l_id l = lot_id) (inventory_lots s0) of
            None \<Rightarrow> (Inl LOT_NOT_FOUND, s0)
          | Some lot \<Rightarrow>
              (Inr (lot_id, qc_status),
               commit (s0\<lparr>inventory_lots :=
                    map (\<lambda>l. if l_id l = lot_id then l\<lparr>l_qc_status := qc_status\<rparr> else l)
                        (inventory_lots s0)\<rparr>))))"

section \<open>Request histories\<close>

datatype request =
    CreateItem string string bool
  | Receive nat string rat
  | Reserve nat rat
  | Issue nat
  | UpdateQc nat qc_status

text \<open>The database after one request, and after a list of requests in order.\<close>

fun handle :: "db \<Rightarrow> request \<Rightarrow> db" where
  "handle s (CreateItem code name qc_required) = snd (create_item s code name qc_required)"
| "handle s (Receive item_id lot_code qty) = snd (receive_inventory s item_id lot_code qty)"
| "handle s (Reserve item_id qty) = snd (reserve_inventory s item_id qty)"
| "handle s (Issue reservation_id) = snd (issue_inventory s reservation_id)"
| "handle s (UpdateQc lot_id qc_status) = snd (update_lot_qc_status s lot_id qc_status)"

definition run :: "db \<Rightarrow> request list \<Rightarrow> db" where
  "run s reqs = foldl handle s reqs"

section \<open>Auxiliary definitions\<close>

text \<open>
  The list \<open>lots_issued\<close> that the loop of \<^verbatim>\<open>issue_inventory\<close> builds, as a function of
  the lots and the quantity alone, and the ISSUE rows the loop inserts for it, numbered
  from the identifier counter.
\<close>

fun allocate :: "lot_dict list \<Rightarrow> rat \<Rightarrow> issued_lot list" where
  "allocate [] remaining_qty = []"
| "allocate (lot # lots) remaining_qty =
     (if remaining_qty \<le> 0 then []
      else \<lparr>il_lot_id = ld_id lot, il_lot_code = ld_lot_code lot,
            il_qty = min (ld_available lot) remaining_qty\<rparr>
           # allocate lots (remaining_qty - min (ld_available lot) remaining_qty))"

fun issue_rows :: "nat \<Rightarrow> nat \<Rightarrow> nat \<Rightarrow> issued_lot list \<Rightarrow> ledger_row list" where
  "issue_rows reservation_id item_id n [] = []"
| "issue_rows reservation_id item_id n (a # as) =
     \<lparr>led_id = n, led_item_id = item_id, led_lot_id = Some (il_lot_id a),
      led_txn_type = ISSUE, led_qty = il_qty a, led_reservation_id = Some reservation_id\<rparr>
     # issue_rows reservation_id item_id (Suc n) as"

text \<open>
  The invariant behind the availability property: no item has negative availability, and
  every reservation row holds a positive quantity (the request model admits no other).
\<close>

definition stock_invariant :: "db \<Rightarrow> bool" where
  "stock_invariant s \<longleftrightarrow>
     (\<forall>item_id. 0 \<le> available (calculate_stock s item_id)) \<and>
     (\<forall>r \<in> set (reservations s). 0 < r_qty r)"

text \<open>Histories used as concrete inputs; the requests are those of the repository's tests.\<close>

definition db_received_100 :: db where
  "db_received_100 =
     run init_db [CreateItem ''ITEM-1'' ''Test Item'' False, Receive 0 ''LOT-001'' 100]"

definition db_exhausted :: db where
  "db_exhausted = run db_received_100 [Reserve 0 100, Issue 3]"


definition db_reserved_30 :: db where
  "db_reserved_30 = run db_received_100 [Reserve 0 30]"

definition db_issued_30 :: db where
  "db_issued_30 = run db_reserved_30 [Issue 3]"

text \<open>
  Modelled on the spec's words (sections 4.2 and 9): the FIFO key of a lot is its place in
  the order of creation, which is the place of its row in \<open>inventory_lots\<close>; a sequence
  of lots is in FIFO order when a lot created earlier always precedes one created later.
\<close>

definition creation_rank :: "db \<Rightarrow> nat \<Rightarrow> nat" where
  "creation_rank s lot_id = length (takeWhile (\<lambda>l. l_id l \<noteq> lot_id) (inventory_lots s))"

definition spec_creation_order :: "db \<Rightarrow> lot_dict list \<Rightarrow> bool" where
  "spec_creation_order s lots = sorted_wrt (<) (map (\<lambda>d. creation_rank s (ld_id d)) lots)"

definition db_codes_reversed :: db where
  "db_codes_reversed =
     run init_db [CreateItem ''ITEM-1'' ''Test Item'' False,
                  Receive 0 ''LOT-B'' 10, Receive 0 ''LOT-A'' 10]"

text \<open>
  From the source: the rows of the lot query of \<^verbatim>\<open>get_available_lots\<close> before its
  HAVING clause removes the exhausted lots, that is the APPROVED lots of the item in
  ascending order of lot code.
\<close>

definition approved_lots_by_code :: "db \<Rightarrow> nat \<Rightarrow> lot_dict list" where
  "approved_lots_by_code s item_id =
     sort_key ld_lot_code
       (map (lot_group s)
          (filter (\<lambda>l. l_item_id l = item_id \<and> l_qc_status l = APPROVED) (inventory_lots s)))"

text \<open>
  Modelled on the spec's words (sections 4.2 and 9): the APPROVED lots of the item in FIFO
  order, where the FIFO key is the order of creation, which is the order of the rows of
  \<open>inventory_lots\<close>.
\<close>

definition spec_fifo_lots :: "db \<Rightarrow> nat \<Rightarrow> lot_dict list" where
  "spec_fifo_lots s item_id =
     map (lot_group s)
       (filter (\<lambda>l. l_item_id l = item_id \<and> l_qc_status l = APPROVED) (inventory_lots s))"

text \<open>
  Modelled on the spec's words (section 4.4): for each lot in order allocate
  \<open>min(lot_available, remaining_qty)\<close>; stop when the remaining quantity reaches zero;
  skip lots with zero available.
\<close>

fun spec_select_lots :: "lot_dict list \<Rightarrow> rat \<Rightarrow> issued_lot list" where
  "spec_select_lots [] remaining_qty = []"
| "spec_select_lots (lot # lots) remaining_qty =
     (if remaining_qty = 0 then []
      else if ld_available lot = 0 then spec_select_lots lots remaining_qty
      else \<lparr>il_lot_id = ld_id lot, il_lot_code = ld_lot_code lot,
            il_qty = min (ld_available lot) remaining_qty\<rparr>
           # spec_select_lots lots (remaining_qty - min (ld_available lot) remaining_qty))"

definition db_fifo_abc :: db where
  "db_fifo_abc =
     run init_db [CreateItem ''ITEM-1'' ''Test Item'' False,
                  Receive 0 ''LOT-A'' 30, Receive 0 ''LOT-B'' 40, Receive 0 ''LOT-C'' 30,
                  Reserve 0 80]"

text \<open>The same three receipts with the lot codes in descending order.\<close>

definition db_fifo_cba :: db where
  "db_fifo_cba =
     run init_db [CreateItem ''ITEM-1'' ''Test Item'' False,
                  Receive 0 ''LOT-C'' 30, Receive 0 ''LOT-B'' 40, Receive 0 ''LOT-A'' 30,
                  Reserve 0 80]"

text \<open>
  An item under QC with a small approved lot and a large quarantined one: LOT-1 (10) was
  approved, LOT-2 (100) is still in QUARANTINE.
\<close>

definition db_partly_approved :: db where
  "db_partly_approved =
     run init_db [CreateItem ''ITEM-QC'' ''Test Item'' True,
                  Receive 0 ''LOT-1'' 10, UpdateQc 1 APPROVED, Receive 0 ''LOT-2'' 100]"

text \<open>
  The invariant of the lots table: lot ids are distinct and were drawn from the counter,
  ledger rows name only lots drawn from the counter, and no lot has more issued than
  received.
\<close>

definition lots_invariant :: "db \<Rightarrow> bool" where
  "lots_invariant s \<longleftrightarrow>
     (\<forall>l \<in> set (inventory_lots s). l_id l < uuid_counter s) \<and>
     distinct (map l_id (inventory_lots s)) \<and>
     (\<forall>e \<in> set (inventory_ledger s). \<forall>lot_id. led_lot_id e = Some lot_id \<longrightarrow> lot_id < uuid_counter s) \<and>
     (\<forall>l \<in> set (inventory_lots s). issued_qty_of s (l_id l) \<le> l_received_qty l)"


text \<open>
  An item under QC whose approved lot LOT-1 (50) has been issued in full, while LOT-2 (50)
  waits in QUARANTINE.
\<close>

definition db_exhausted_and_quarantined :: db where
  "db_exhausted_and_quarantined =
     run init_db [CreateItem ''ITEM-QC'' ''Test Item'' True,
                  Receive 0 ''LOT-1'' 50, UpdateQc 1 APPROVED, Reserve 0 50, Issue 3,
                  Receive 0 ''LOT-2'' 50]"

text \<open>
  Histories in which a request raises inside its transaction without rolling back: a
  reserve for an item that does not exist, and a QC update of a lot that does not exist.
\<close>

definition db_issued_30_then_unknown_item :: db where
  "db_issued_30_then_unknown_item = run db_issued_30 [Reserve 99 1]"

definition db_received_100_then_unknown_lot :: db where
  "db_received_100_then_unknown_lot = run db_received_100 [UpdateQc 99 APPROVED]"

section \<open>Effects of the endpoints on the tables\<close>

lemmas txn_defs = begin_immediate_def commit_def rollback_def

lemma clean_flag: "\<not> in_transaction s \<Longrightarrow> s\<lparr>in_transaction := False\<rparr> = s"
  by (cases s) simp

lemma stock_invariant_cong:
  "inventory_ledger t = inventory_ledger s \<Longrightarrow> reservations t = reservations s \<Longrightarrow>
     stock_invariant t = stock_invariant s"
  by (simp add: stock_invariant_def calculate_stock_def ledger_sum_def open_reserved_def)

subsection \<open>The issue loop as a function of the lots\<close>

lemma issue_loop_eq:
  "issue_loop rid iid lots rem acc s =
     (acc @ allocate lots rem,
      s\<lparr>inventory_ledger := inventory_ledger s @ issue_rows rid iid (uuid_counter s) (allocate lots rem),
        uuid_counter := uuid_counter s + length (allocate lots rem)\<rparr>)"
proof (induction lots arbitrary: rem acc s)
  case Nil
  show ?case by simp
next
  case (Cons lot lots)
  show ?case
    by (simp add: Cons.IH uuid4_def Let_def)
qed

lemma allocate_total:
  "\<forall>d \<in> set lots. 0 < ld_available d \<Longrightarrow> 0 \<le> rem \<Longrightarrow> rem \<le> sum_list (map ld_available lots)
   \<Longrightarrow> sum_list (map il_qty (allocate lots rem)) = rem"
proof (induction lots arbitrary: rem)
  case Nil
  then show ?case by simp
next
  case (Cons lot lots)
  show ?case
  proof (cases "rem \<le> 0")
    case True
    with Cons.prems show ?thesis by simp
  next
    case False
    have "sum_list (map il_qty (allocate lots (rem - min (ld_available lot) rem)))
            = rem - min (ld_available lot) rem"
    proof (rule Cons.IH)
      show "\<forall>d \<in> set lots. 0 < ld_available d" using Cons.prems by simp
      show "0 \<le> rem - min (ld_available lot) rem" by simp
      have "0 \<le> sum_list (map ld_available lots)"
        using Cons.prems(1) by (intro sum_list_nonneg) auto
      then show "rem - min (ld_available lot) rem \<le> sum_list (map ld_available lots)"
        using Cons.prems(3) by (simp add: min_def)
    qed
    with False show ?thesis by simp
  qed
qed


lemma available_eq:
  "available (calculate_stock s i) = ledger_sum s i RECEIVE - ledger_sum s i ISSUE - open_reserved s i"
  by (simp add: calculate_stock_def Let_def)

subsection \<open>What receive and reserve write\<close>

lemma receive_reservations [simp]:
  "reservations (snd (receive_inventory s iid code q)) = reservations s"
  by (simp add: receive_inventory_def uuid4_def txn_defs Let_def split: sum.splits)

lemma receive_items [simp]:
  "items (snd (receive_inventory s iid code q)) = items s"
  by (simp add: receive_inventory_def uuid4_def txn_defs Let_def split: sum.splits)

lemma receive_ledger:
  "inventory_ledger (snd (receive_inventory s iid code q)) =
     inventory_ledger s @
       (if isl (fst (receive_inventory s iid code q)) then []
        else [\<lparr>led_id = Suc (uuid_counter s), led_item_id = iid,
               led_lot_id = Some (uuid_counter s), led_txn_type = RECEIVE, led_qty = q,
               led_reservation_id = None\<rparr>])"
  by (simp add: receive_inventory_def uuid4_def txn_defs Let_def split: sum.splits)

lemma receive_lots:
  "inventory_lots (snd (receive_inventory s iid code q)) =
     inventory_lots s @
       (case fst (receive_inventory s iid code q) of Inl e \<Rightarrow> []
        | Inr r \<Rightarrow> [\<lparr>l_id = uuid_counter s, l_item_id = iid, l_lot_code = code,
               l_received_qty = q, l_qc_status = rc_qc_status r\<rparr>])"
  by (simp add: receive_inventory_def uuid4_def txn_defs Let_def split: sum.splits)

lemma receive_ok_qty: "fst (receive_inventory s iid code q) = Inr r \<Longrightarrow> 0 < q"
  by (simp add: receive_inventory_def split: if_splits)

lemma reserve_items [simp]:
  "items (snd (reserve_inventory s iid q)) = items s"
  by (simp add: reserve_inventory_def uuid4_def txn_defs Let_def split: sum.splits)

lemma reserve_lots [simp]:
  "inventory_lots (snd (reserve_inventory s iid q)) = inventory_lots s"
  by (simp add: reserve_inventory_def uuid4_def txn_defs Let_def split: sum.splits)

lemma reserve_ledger:
  "inventory_ledger (snd (reserve_inventory s iid q)) =
     inventory_ledger s @
       (if isl (fst (reserve_inventory s iid q)) then []
        else [\<lparr>led_id = Suc (uuid_counter s), led_item_id = iid, led_lot_id = None,
               led_txn_type = RESERVE, led_qty = q,
               led_reservation_id = Some (uuid_counter s)\<rparr>])"
  by (simp add: reserve_inventory_def uuid4_def txn_defs Let_def split: sum.splits)

lemma reserve_reservations:
  "reservations (snd (reserve_inventory s iid q)) =
     reservations s @
       (if isl (fst (reserve_inventory s iid q)) then []
        else [\<lparr>r_id = uuid_counter s, r_item_id = iid, r_qty = q, r_status = OPEN\<rparr>])"
  by (simp add: reserve_inventory_def uuid4_def txn_defs Let_def split: sum.splits)

lemma calculate_stock_flag [simp]:
  "calculate_stock (s\<lparr>in_transaction := b\<rparr>) i = calculate_stock s i"
  by (simp add: calculate_stock_def ledger_sum_def open_reserved_def)

lemma lot_group_flag [simp]: "lot_group (s\<lparr>in_transaction := b\<rparr>) = lot_group s"
  by (simp add: fun_eq_iff lot_group_def issued_qty_of_def)

lemma get_available_lots_flag [simp]:
  "get_available_lots (s\<lparr>in_transaction := b\<rparr>) i q = get_available_lots s i q"
  by (simp add: get_available_lots_def)

lemma get_item_flag [simp]: "get_item (s\<lparr>in_transaction := b\<rparr>) i = get_item s i"
  by (simp add: get_item_def)

lemma reserve_ok:
  "fst (reserve_inventory s iid q) = Inr r \<Longrightarrow>
     \<not> in_transaction s \<and> 0 < q \<and> q \<le> available (calculate_stock s iid) \<and>
     get_available_lots s iid q \<noteq> []"
  by (simp add: reserve_inventory_def uuid4_def txn_defs Let_def
        split: if_splits sum.splits)

subsection \<open>The availability invariant\<close>

lemma inv_create_item: "stock_invariant s \<Longrightarrow> stock_invariant (snd (create_item s code name qc))"
  by (simp add: create_item_def uuid4_def txn_defs Let_def stock_invariant_def available_eq
        ledger_sum_def open_reserved_def)

lemma inv_update: "stock_invariant s \<Longrightarrow> stock_invariant (snd (update_lot_qc_status s lot_id st))"
  by (simp add: update_lot_qc_status_def txn_defs stock_invariant_def available_eq
        ledger_sum_def open_reserved_def split: option.splits)

lemma inv_receive:
  assumes inv: "stock_invariant s"
  shows "stock_invariant (snd (receive_inventory s iid code q))"
proof (cases "fst (receive_inventory s iid code q)")
  case (Inl e)
  then show ?thesis using inv
    by (simp add: stock_invariant_def available_eq ledger_sum_def open_reserved_def receive_ledger)
next
  case (Inr r)
  then have "0 < q" by (rule receive_ok_qty)
  show ?thesis unfolding stock_invariant_def
  proof (intro conjI allI)
    fix j
    have "0 \<le> available (calculate_stock s j)" using inv by (simp add: stock_invariant_def)
    then show "0 \<le> available (calculate_stock (snd (receive_inventory s iid code q)) j)"
      using \<open>0 < q\<close> Inr
      by (simp add: available_eq ledger_sum_def open_reserved_def receive_ledger)
  next
    show "\<forall>r\<in>set (reservations (snd (receive_inventory s iid code q))). 0 < r_qty r"
      using inv by (simp add: stock_invariant_def)
  qed
qed

lemma inv_reserve:
  assumes inv: "stock_invariant s"
  shows "stock_invariant (snd (reserve_inventory s iid q))"
proof (cases "fst (reserve_inventory s iid q)")
  case (Inl e)
  then show ?thesis using inv
    by (simp add: stock_invariant_def available_eq ledger_sum_def open_reserved_def
          reserve_ledger reserve_reservations)
next
  case (Inr r)
  then have ok: "0 < q" "q \<le> available (calculate_stock s iid)"
    using reserve_ok by blast+
  show ?thesis unfolding stock_invariant_def
  proof (intro conjI allI)
    fix j
    have "0 \<le> available (calculate_stock s j)" using inv by (simp add: stock_invariant_def)
    then show "0 \<le> available (calculate_stock (snd (reserve_inventory s iid q)) j)"
      using ok Inr
      by (auto simp add: available_eq ledger_sum_def open_reserved_def
            reserve_ledger reserve_reservations)
  next
    show "\<forall>r\<in>set (reservations (snd (reserve_inventory s iid q))). 0 < r_qty r"
      using inv ok Inr by (simp add: stock_invariant_def reserve_reservations)
  qed
qed


lemma issue_items [simp]:
  "items (snd (issue_inventory s rid)) = items s"
  by (simp add: issue_inventory_def issue_loop_eq uuid4_def txn_defs Let_def
        split: option.splits)

lemma issue_lots [simp]:
  "inventory_lots (snd (issue_inventory s rid)) = inventory_lots s"
  by (simp add: issue_inventory_def issue_loop_eq uuid4_def txn_defs Let_def
        split: option.splits)

lemma issue_failed:
  "fst (issue_inventory s rid) = Inl e \<Longrightarrow>
     same_tables (snd (issue_inventory s rid)) s \<and>
     uuid_counter (snd (issue_inventory s rid)) = uuid_counter s \<and>
     \<not> in_transaction (snd (issue_inventory s rid))"
  by (auto simp add: issue_inventory_def issue_loop_eq uuid4_def txn_defs Let_def same_tables_def
        split: option.splits if_splits)

lemma issue_failed_clean:
  "fst (issue_inventory s rid) = Inl e \<Longrightarrow> \<not> in_transaction s \<Longrightarrow>
     snd (issue_inventory s rid) = s"
  by (auto simp add: issue_inventory_def issue_loop_eq uuid4_def txn_defs Let_def clean_flag
        split: option.splits if_splits)

lemma issue_ok:
  assumes "fst (issue_inventory s rid) = Inr resp"
  shows "\<exists>r. \<not> in_transaction s \<and>
           find (\<lambda>r. r_id r = rid) (reservations s) = Some r \<and> r_status r = OPEN \<and>
           is_reservation_id resp = rid \<and> is_item_id resp = r_item_id r \<and> is_qty resp = r_qty r \<and>
           get_available_lots s (r_item_id r) (r_qty r) \<noteq> [] \<and>
           r_qty r \<le> sum_list (map ld_available (get_available_lots s (r_item_id r) (r_qty r))) \<and>
           is_lots_issued resp = allocate (get_available_lots s (r_item_id r) (r_qty r)) (r_qty r)"
  using assms
  by (auto simp add: issue_inventory_def issue_loop_eq uuid4_def txn_defs Let_def
        split: option.splits if_splits)

lemma issue_ledger:
  assumes "fst (issue_inventory s rid) = Inr resp"
  shows "inventory_ledger (snd (issue_inventory s rid)) =
           inventory_ledger s @
           issue_rows rid (is_item_id resp) (uuid_counter s) (is_lots_issued resp) @
           [\<lparr>led_id = uuid_counter s + length (is_lots_issued resp),
             led_item_id = is_item_id resp, led_lot_id = None, led_txn_type = UNRESERVE,
             led_qty = is_qty resp, led_reservation_id = Some rid\<rparr>]"
  using assms
  by (auto simp add: issue_inventory_def issue_loop_eq uuid4_def txn_defs Let_def
        split: option.splits if_splits)

lemma issue_reservations:
  assumes "fst (issue_inventory s rid) = Inr resp"
  shows "reservations (snd (issue_inventory s rid)) =
           map (\<lambda>r. if r_id r = rid then r\<lparr>r_status := ISSUED\<rparr> else r) (reservations s)"
  using assms
  by (auto simp add: issue_inventory_def issue_loop_eq uuid4_def txn_defs Let_def
        split: option.splits if_splits)

lemma available_lots_positive:
  "d \<in> set (get_available_lots s i q) \<Longrightarrow> 0 < ld_available d"
  by (auto simp add: get_available_lots_def lot_group_def)

lemma issue_rows_sum:
  "sum_list (map (\<lambda>e. if led_txn_type e = t then led_qty e else 0)
      (filter (\<lambda>e. led_item_id e = j) (issue_rows rid iid n as))) =
     (if j = iid \<and> t = ISSUE then sum_list (map il_qty as) else 0)"
  by (induction as arbitrary: n) auto

lemma open_reserved_mono:
  assumes "\<forall>r \<in> set rs. 0 < r_qty r"
  shows "sum_list (map r_qty (filter (\<lambda>r. r_item_id r = j \<and> r_status r = OPEN)
            (map (\<lambda>r. if r_id r = rid then r\<lparr>r_status := ISSUED\<rparr> else r) rs)))
         \<le> sum_list (map r_qty (filter (\<lambda>r. r_item_id r = j \<and> r_status r = OPEN) rs))"
  using assms
proof (induction rs)
  case Nil
  show ?case by simp
next
  case (Cons a rs)
  then have "0 < r_qty a" and
    "sum_list (map r_qty (filter (\<lambda>r. r_item_id r = j \<and> r_status r = OPEN)
            (map (\<lambda>r. if r_id r = rid then r\<lparr>r_status := ISSUED\<rparr> else r) rs)))
         \<le> sum_list (map r_qty (filter (\<lambda>r. r_item_id r = j \<and> r_status r = OPEN) rs))"
    by simp_all
  then show ?case by auto
qed

lemma open_reserved_issued:
  assumes "\<forall>r \<in> set rs. 0 < r_qty r"
    and "find (\<lambda>r. r_id r = rid) rs = Some r0" and "r_status r0 = OPEN"
  shows "sum_list (map r_qty (filter (\<lambda>r. r_item_id r = j \<and> r_status r = OPEN)
            (map (\<lambda>r. if r_id r = rid then r\<lparr>r_status := ISSUED\<rparr> else r) rs)))
         \<le> sum_list (map r_qty (filter (\<lambda>r. r_item_id r = j \<and> r_status r = OPEN) rs)) -
           (if r_item_id r0 = j then r_qty r0 else 0)"
  using assms
proof (induction rs)
  case Nil
  then show ?case by simp
next
  case (Cons a rs)
  show ?case
  proof (cases "r_id a = rid")
    case True
    then have "a = r0" using Cons.prems(2) by simp
    moreover have "sum_list (map r_qty (filter (\<lambda>r. r_item_id r = j \<and> r_status r = OPEN)
            (map (\<lambda>r. if r_id r = rid then r\<lparr>r_status := ISSUED\<rparr> else r) rs)))
         \<le> sum_list (map r_qty (filter (\<lambda>r. r_item_id r = j \<and> r_status r = OPEN) rs))"
      using Cons.prems(1) by (intro open_reserved_mono) simp
    ultimately show ?thesis using True Cons.prems(3) by auto
  next
    case False
    then have "sum_list (map r_qty (filter (\<lambda>r. r_item_id r = j \<and> r_status r = OPEN)
            (map (\<lambda>r. if r_id r = rid then r\<lparr>r_status := ISSUED\<rparr> else r) rs)))
         \<le> sum_list (map r_qty (filter (\<lambda>r. r_item_id r = j \<and> r_status r = OPEN) rs)) -
           (if r_item_id r0 = j then r_qty r0 else 0)"
      using Cons by simp
    then show ?thesis using False by auto
  qed
qed

lemma inv_issue:
  assumes inv: "stock_invariant s"
  shows "stock_invariant (snd (issue_inventory s rid))"
proof (cases "fst (issue_inventory s rid)")
  case (Inl e)
  then show ?thesis
    using inv issue_failed[OF Inl] stock_invariant_cong[of "snd (issue_inventory s rid)" s]
    by (simp add: same_tables_def)
next
  case (Inr resp)
  from issue_ok[OF Inr] obtain r where
    r: "find (\<lambda>r. r_id r = rid) (reservations s) = Some r" "r_status r = OPEN"
       "is_item_id resp = r_item_id r" "is_qty resp = r_qty r"
       "r_qty r \<le> sum_list (map ld_available (get_available_lots s (r_item_id r) (r_qty r)))"
       "is_lots_issued resp = allocate (get_available_lots s (r_item_id r) (r_qty r)) (r_qty r)"
    by blast
  have pos: "\<forall>x \<in> set (reservations s). 0 < r_qty x"
    using inv by (simp add: stock_invariant_def)
  have "r \<in> set (reservations s)"
    using r(1) by (auto simp: find_Some_iff)
  then have qpos: "0 < r_qty r" using pos by blast
  have total: "sum_list (map il_qty (is_lots_issued resp)) = r_qty r"
    unfolding r(6)
    using qpos r(5) by (intro allocate_total) (auto simp: available_lots_positive)
  show ?thesis unfolding stock_invariant_def
  proof (intro conjI allI)
    fix j
    have a: "0 \<le> available (calculate_stock s j)" using inv by (simp add: stock_invariant_def)
    have res: "open_reserved (snd (issue_inventory s rid)) j \<le>
                 open_reserved s j - (if r_item_id r = j then r_qty r else 0)"
      unfolding open_reserved_def issue_reservations[OF Inr]
      by (rule open_reserved_issued[OF pos r(1) r(2)])
    have led: "ledger_sum (snd (issue_inventory s rid)) j RECEIVE = ledger_sum s j RECEIVE"
      "ledger_sum (snd (issue_inventory s rid)) j ISSUE =
         ledger_sum s j ISSUE + (if r_item_id r = j then r_qty r else 0)"
      by (auto simp add: ledger_sum_def issue_ledger[OF Inr] issue_rows_sum total r(3))
    show "0 \<le> available (calculate_stock (snd (issue_inventory s rid)) j)"
      using a res led by (simp add: available_eq)
  next
    show "\<forall>r\<in>set (reservations (snd (issue_inventory s rid))). 0 < r_qty r"
      using pos by (auto simp add: issue_reservations[OF Inr])
  qed
qed

lemma inv_handle: "stock_invariant s \<Longrightarrow> stock_invariant (handle s req)"
  by (cases req) (simp_all add: inv_create_item inv_receive inv_reserve inv_issue inv_update)

lemma inv_run: "stock_invariant s \<Longrightarrow> stock_invariant (run s reqs)"
  unfolding run_def by (induction reqs arbitrary: s) (simp_all add: inv_handle)

lemma inv_init: "stock_invariant init_db"
  by (simp add: stock_invariant_def init_db_def available_eq ledger_sum_def open_reserved_def)

subsection \<open>Issuing a reservation that is not OPEN\<close>

lemma issue_not_open:
  "\<not> in_transaction s \<Longrightarrow> find (\<lambda>r. r_id r = rid) (reservations s) = Some r \<Longrightarrow>
     r_status r \<noteq> OPEN \<Longrightarrow>
     issue_inventory s rid = (Inl RESERVATION_ALREADY_ISSUED, s)"
  by (simp add: issue_inventory_def txn_defs clean_flag)

lemma issue_leaves_clean: "\<not> in_transaction (snd (issue_inventory s rid))"
  by (simp add: issue_inventory_def issue_loop_eq uuid4_def txn_defs Let_def
        split: option.splits)

lemma issue_on_open_transaction:
  "in_transaction s \<Longrightarrow>
     issue_inventory s rid = (Inl INTERNAL_ERROR, s\<lparr>in_transaction := False\<rparr>)"
  by (simp add: issue_inventory_def txn_defs)

lemma find_map_update:
  "find (\<lambda>r. r_id r = rid) (map (\<lambda>r. if r_id r = rid then r\<lparr>r_status := st\<rparr> else r) rs) =
     map_option (\<lambda>r. r\<lparr>r_status := st\<rparr>) (find (\<lambda>r. r_id r = rid) rs)"
  by (induction rs) auto

lemma issue_marks_issued:
  assumes "fst (issue_inventory s rid) = Inr resp"
  shows "\<exists>r. find (\<lambda>r. r_id r = rid) (reservations s) = Some r \<and> r_status r = OPEN \<and>
            r_item_id r = is_item_id resp \<and> r_qty r = is_qty resp \<and>
            find (\<lambda>r. r_id r = rid) (reservations (snd (issue_inventory s rid))) =
              Some (r\<lparr>r_status := ISSUED\<rparr>)"
proof -
  from issue_ok[OF assms] obtain r where
    r: "find (\<lambda>r. r_id r = rid) (reservations s) = Some r" "r_status r = OPEN"
       "is_item_id resp = r_item_id r" "is_qty resp = r_qty r"
    by blast
  then show ?thesis
    by (simp add: issue_reservations[OF assms] find_map_update)
qed

lemma second_issue_rejected:
  assumes "fst (issue_inventory s rid) = Inr resp"
  shows "issue_inventory (snd (issue_inventory s rid)) rid =
           (Inl RESERVATION_ALREADY_ISSUED, snd (issue_inventory s rid))"
proof -
  from issue_marks_issued[OF assms] obtain r :: reservation_row where
    f: "find (\<lambda>r. r_id r = rid) (reservations (snd (issue_inventory s rid))) =
              Some (r\<lparr>r_status := ISSUED\<rparr>)" by blast
  have "r_status (r\<lparr>r_status := ISSUED\<rparr>) \<noteq> OPEN" by simp
  from issue_not_open[OF issue_leaves_clean f this] show ?thesis .
qed

subsection \<open>Outcomes of receive\<close>

lemma receive_duplicate:
  assumes "lot_code \<in> set (map l_lot_code (inventory_lots s))"
      and "get_item s item_id = Inr item" and "0 < qty" and "\<not> in_transaction s"
  shows "receive_inventory s item_id lot_code qty =
           (Inl DUPLICATE_LOT_CODE, s\<lparr>uuid_counter := Suc (Suc (uuid_counter s))\<rparr>)"
  using assms
  by (cases s) (simp add: receive_inventory_def uuid4_def txn_defs Let_def get_item_def)

lemma receive_on_open_transaction:
  assumes "get_item s item_id = Inr item" and "0 < qty" and "in_transaction s"
  shows "fst (receive_inventory s item_id lot_code qty) = Inl INTERNAL_ERROR \<and>
         same_tables (snd (receive_inventory s item_id lot_code qty)) s"
  using assms
  by (simp add: receive_inventory_def uuid4_def txn_defs Let_def same_tables_def)



lemma get_item_receive [simp]:
  "get_item (snd (receive_inventory s i c q)) j = get_item s j"
  by (simp add: get_item_def)

subsection \<open>The lot query and the selection of the spec\<close>

lemma available_lots_filter:
  "get_available_lots s item_id q =
     filter (\<lambda>d. 0 < ld_available d) (approved_lots_by_code s item_id)"
proof -
  have "(\<lambda>d. 0 < ld_received_qty d - ld_issued_qty d) \<circ> lot_group s =
        (\<lambda>d. 0 < ld_available d) \<circ> lot_group s"
    by (simp add: fun_eq_iff lot_group_def)
  then have "filter (\<lambda>d. 0 < ld_received_qty d - ld_issued_qty d) (map (lot_group s) ls) =
        filter (\<lambda>d. 0 < ld_available d) (map (lot_group s) ls)" for ls
    by (simp add: filter_map)
  then show ?thesis
    by (simp add: get_available_lots_def approved_lots_by_code_def filter_sort)
qed

lemma allocate_nothing: "remaining_qty \<le> 0 \<Longrightarrow> allocate lots remaining_qty = []"
  by (cases lots) simp_all

lemma allocate_spec:
  assumes "\<forall>d \<in> set lots. 0 \<le> ld_available d" and "0 \<le> remaining_qty"
  shows "allocate (filter (\<lambda>d. 0 < ld_available d) lots) remaining_qty =
           spec_select_lots lots remaining_qty"
  using assms
proof (induction lots arbitrary: remaining_qty)
  case Nil
  show ?case by simp
next
  case (Cons lot lots)
  have nonneg: "0 \<le> ld_available lot" and rest: "\<forall>d \<in> set lots. 0 \<le> ld_available d"
    using Cons.prems(1) by simp_all
  show ?case
  proof (cases "remaining_qty = 0")
    case True
    then show ?thesis by (simp add: allocate_nothing)
  next
    case False
    then have pos: "0 < remaining_qty" using Cons.prems(2) by simp
    show ?thesis
    proof (cases "ld_available lot = 0")
      case True
      then show ?thesis using False Cons.IH[OF rest Cons.prems(2)] by simp
    next
      case avail: False
      then have "0 < ld_available lot" using nonneg by simp
      moreover have "0 \<le> remaining_qty - min (ld_available lot) remaining_qty" by simp
      ultimately show ?thesis
        using False pos avail Cons.IH[OF rest] by simp
    qed
  qed
qed

subsection \<open>Outcomes of reserve\<close>

lemma available_lots_empty_iff:
  "get_available_lots s item_id q = [] \<longleftrightarrow>
     \<not> list_ex (\<lambda>l. l_item_id l = item_id \<and> l_qc_status l = APPROVED \<and>
                     0 < l_received_qty l - issued_qty_of s (l_id l)) (inventory_lots s)"
proof -
  have "set (get_available_lots s item_id q) =
          lot_group s ` {l \<in> set (inventory_lots s). l_item_id l = item_id \<and>
             l_qc_status l = APPROVED \<and> 0 < l_received_qty l - issued_qty_of s (l_id l)}"
    by (auto simp add: get_available_lots_def lot_group_def)
  moreover have "get_available_lots s item_id q = [] \<longleftrightarrow>
                 set (get_available_lots s item_id q) = {}"
    by simp
  ultimately show ?thesis
    by (auto simp add: list_ex_iff)
qed

lemma available_lots_approved:
  "d \<in> set (get_available_lots s item_id q) \<Longrightarrow> ld_qc_status d = APPROVED"
  by (auto simp add: get_available_lots_def lot_group_def)

lemma reserve_outcome:
  "fst (reserve_inventory s item_id qty) =
     (if \<not> 0 < qty then Inl VALIDATION_ERROR
      else if in_transaction s then Inl INTERNAL_ERROR
      else if isl (get_item s item_id) then Inl ITEM_NOT_FOUND
      else if available (calculate_stock s item_id) < qty then Inl INSUFFICIENT_STOCK
      else if get_available_lots s item_id qty = [] then Inl NO_QC_APPROVED_LOT
      else Inr \<lparr>rv_reservation_id = uuid_counter s, rv_item_id = item_id, rv_qty = qty,
                rv_status = OPEN\<rparr>)"
  by (auto simp add: reserve_inventory_def get_item_def uuid4_def txn_defs Let_def
        split: sum.splits option.splits)

lemma reserve_failed:
  "fst (reserve_inventory s item_id qty) = Inl e \<Longrightarrow>
     same_tables (snd (reserve_inventory s item_id qty)) s \<and>
     uuid_counter (snd (reserve_inventory s item_id qty)) = uuid_counter s"
  by (auto simp add: reserve_inventory_def txn_defs uuid4_def Let_def same_tables_def
        split: sum.splits if_splits)

lemma reserve_failed_clean:
  "fst (reserve_inventory s item_id qty) = Inl e \<Longrightarrow> \<not> in_transaction s \<Longrightarrow>
     get_item s item_id = Inr item \<Longrightarrow> snd (reserve_inventory s item_id qty) = s"
  by (auto simp add: reserve_inventory_def txn_defs uuid4_def Let_def clean_flag
        split: sum.splits if_splits)

lemma reserve_leaves_clean:
  "0 < qty \<Longrightarrow> get_item s item_id = Inr item \<Longrightarrow>
     \<not> in_transaction (snd (reserve_inventory s item_id qty))"
  by (auto simp add: reserve_inventory_def txn_defs uuid4_def Let_def
        split: sum.splits if_splits)

text \<open>
  The reserve for an unknown item: it is answered with ITEM_NOT_FOUND and leaves the
  connection inside the transaction it began.
\<close>

lemma reserve_unknown_item:
  "0 < qty \<Longrightarrow> \<not> in_transaction s \<Longrightarrow> get_item s item_id = Inl e \<Longrightarrow>
     reserve_inventory s item_id qty = (Inl ITEM_NOT_FOUND, s\<lparr>in_transaction := True\<rparr>)"
  by (auto simp add: reserve_inventory_def txn_defs get_item_def split: option.splits)

lemma lots_invariant_mono:
  assumes "lots_invariant s" and "inventory_lots t = inventory_lots s"
      and "inventory_ledger t = inventory_ledger s" and "uuid_counter s \<le> uuid_counter t"
  shows "lots_invariant t"
proof -
  have i: "issued_qty_of t k = issued_qty_of s k" for k
    by (simp add: issued_qty_of_def assms(3))
  show ?thesis
    using assms(1,4) unfolding lots_invariant_def i assms(2,3) by fastforce
qed

subsection \<open>The invariant of the lots table\<close>

lemma lots_invariant_flag [simp]:
  "lots_invariant (s\<lparr>in_transaction := b\<rparr>) = lots_invariant s"
  by (simp add: lots_invariant_def issued_qty_of_def)

lemma issued_qty_of_fresh:
  "\<forall>e \<in> set (inventory_ledger s). \<forall>lot_id. led_lot_id e = Some lot_id \<longrightarrow> lot_id < n \<Longrightarrow>
     n \<le> k \<Longrightarrow> issued_qty_of s k = 0"
proof -
  assume a: "\<forall>e \<in> set (inventory_ledger s). \<forall>lot_id. led_lot_id e = Some lot_id \<longrightarrow> lot_id < n"
    and "n \<le> k"
  then have "filter (\<lambda>e. led_lot_id e = Some k) (inventory_ledger s) = []"
    by (auto simp add: filter_empty_conv)
  then show ?thesis by (simp add: issued_qty_of_def)
qed

lemma lots_inv_create_item:
  "lots_invariant s \<Longrightarrow> lots_invariant (snd (create_item s code name qc))"
  by (auto simp add: create_item_def uuid4_def txn_defs Let_def lots_invariant_def
        issued_qty_of_def less_Suc_eq)

lemma lots_inv_reserve:
  assumes "lots_invariant s"
  shows "lots_invariant (snd (reserve_inventory s iid q))"
proof (cases "fst (reserve_inventory s iid q)")
  case (Inl e)
  show ?thesis
    using reserve_failed[OF Inl]
    by (intro lots_invariant_mono[OF assms]) (simp_all add: same_tables_def)
next
  case (Inr r)
  have c: "uuid_counter s \<le> uuid_counter (snd (reserve_inventory s iid q))"
    by (simp add: reserve_inventory_def uuid4_def txn_defs Let_def split: sum.splits)
  have i: "issued_qty_of (snd (reserve_inventory s iid q)) k = issued_qty_of s k" for k
    by (simp add: issued_qty_of_def reserve_ledger)
  show ?thesis
    using assms c unfolding lots_invariant_def i
    by (auto simp add: reserve_ledger)
qed


lemma lots_inv_update:
  assumes "lots_invariant s"
  shows "lots_invariant (snd (update_lot_qc_status s lot_id st))"
proof -
  have m: "l_id \<circ> (\<lambda>l. if l_id l = lot_id then l\<lparr>l_qc_status := st\<rparr> else l) = l_id"
    by (auto simp add: fun_eq_iff)
  have "lots_invariant (s\<lparr>inventory_lots :=
          map (\<lambda>l. if l_id l = lot_id then l\<lparr>l_qc_status := st\<rparr> else l) (inventory_lots s)\<rparr>)"
    using assms unfolding lots_invariant_def
    by (auto simp add: m issued_qty_of_def)
  then show ?thesis
    using assms by (simp add: update_lot_qc_status_def txn_defs split: option.splits)
qed

lemma receive_failed:
  "fst (receive_inventory s iid code q) = Inl e \<Longrightarrow>
     same_tables (snd (receive_inventory s iid code q)) s \<and>
     uuid_counter s \<le> uuid_counter (snd (receive_inventory s iid code q))"
  by (auto simp add: receive_inventory_def uuid4_def txn_defs Let_def same_tables_def
        split: sum.splits if_splits)

lemma receive_counter:
  "fst (receive_inventory s iid code q) = Inr r \<Longrightarrow>
     uuid_counter (snd (receive_inventory s iid code q)) = Suc (Suc (uuid_counter s))"
  by (auto simp add: receive_inventory_def uuid4_def txn_defs Let_def
        split: sum.splits if_splits)

lemma lots_inv_receive:
  assumes inv: "lots_invariant s"
  shows "lots_invariant (snd (receive_inventory s iid code q))"
proof (cases "fst (receive_inventory s iid code q)")
  case (Inl e)
  from receive_failed[OF Inl] have
    t: "inventory_lots (snd (receive_inventory s iid code q)) = inventory_lots s"
       "inventory_ledger (snd (receive_inventory s iid code q)) = inventory_ledger s"
    and c: "uuid_counter s \<le> uuid_counter (snd (receive_inventory s iid code q))"
    by (simp_all add: same_tables_def)
  have i: "issued_qty_of (snd (receive_inventory s iid code q)) k = issued_qty_of s k" for k
    by (simp add: issued_qty_of_def t)
  show ?thesis
    using inv c unfolding lots_invariant_def i t by fastforce
next
  case (Inr r)
  let ?s' = "snd (receive_inventory s iid code q)"
  have q: "0 < q" using Inr by (rule receive_ok_qty)
  have c: "uuid_counter ?s' = Suc (Suc (uuid_counter s))" using Inr by (rule receive_counter)
  have lots: "inventory_lots ?s' = inventory_lots s @
        [\<lparr>l_id = uuid_counter s, l_item_id = iid, l_lot_code = code,
               l_received_qty = q, l_qc_status = rc_qc_status r\<rparr>]"
    using Inr by (simp add: receive_lots)
  have led: "inventory_ledger ?s' = inventory_ledger s @
        [\<lparr>led_id = Suc (uuid_counter s), led_item_id = iid,
               led_lot_id = Some (uuid_counter s), led_txn_type = RECEIVE, led_qty = q,
               led_reservation_id = None\<rparr>]"
    using Inr by (simp add: receive_ledger)
  have i: "issued_qty_of ?s' k = issued_qty_of s k" for k
    by (simp add: issued_qty_of_def led)
  have fresh: "issued_qty_of s (uuid_counter s) = 0"
    using inv by (intro issued_qty_of_fresh[of s "uuid_counter s"]) (auto simp: lots_invariant_def)
  show ?thesis
    unfolding lots_invariant_def i c lots led
    using inv q fresh by (auto simp add: lots_invariant_def less_Suc_eq)
qed

lemma find_in_set: "find P xs = Some x \<Longrightarrow> x \<in> set xs \<and> P x"
  by (induction xs) (auto split: if_splits)

lemma allocate_ids:
  "a \<in> set (allocate lots rem) \<Longrightarrow> il_lot_id a \<in> ld_id ` set lots"
  by (induction lots arbitrary: rem) (auto split: if_splits)

lemma allocate_per_lot:
  assumes "distinct (map ld_id lots)" and "\<forall>d \<in> set lots. 0 < ld_available d"
  shows "sum_list (map il_qty (filter (\<lambda>a. il_lot_id a = k) (allocate lots rem))) \<le>
           (case find (\<lambda>d. ld_id d = k) lots of None \<Rightarrow> 0 | Some d \<Rightarrow> ld_available d)"
  using assms
proof (induction lots arbitrary: rem)
  case Nil
  show ?case by simp
next
  case (Cons lot lots)
  have IH: "sum_list (map il_qty (filter (\<lambda>a. il_lot_id a = k) (allocate lots r))) \<le>
           (case find (\<lambda>d. ld_id d = k) lots of None \<Rightarrow> 0 | Some d \<Rightarrow> ld_available d)" for r
    using Cons by simp
  have pos: "0 < ld_available lot" using Cons.prems by simp
  show ?case
  proof (cases "rem \<le> 0")
    case True
    have "0 \<le> (case find (\<lambda>d. ld_id d = k) (lot # lots) of None \<Rightarrow> 0
                 | Some d \<Rightarrow> ld_available d)"
    proof (cases "find (\<lambda>d. ld_id d = k) (lot # lots)")
      case None
      then show ?thesis by simp
    next
      case (Some d)
      then have "d \<in> set (lot # lots)" by (blast dest: find_in_set)
      then have "0 < ld_available d" using Cons.prems(2) by blast
      then show ?thesis using Some by simp
    qed
    then show ?thesis using True by simp
  next
    case False
    show ?thesis
    proof (cases "ld_id lot = k")
      case True
      then have "k \<notin> ld_id ` set lots" using Cons.prems(1) by auto
      then have "filter (\<lambda>a. il_lot_id a = k) (allocate lots r) = []" for r
        using allocate_ids by (fastforce simp add: filter_empty_conv)
      then show ?thesis using True False by simp
    next
      case ne: False
      then show ?thesis using False IH by simp
    qed
  qed
qed


lemma issue_rows_lot_sum:
  "sum_list (map (\<lambda>e. if led_txn_type e = ISSUE then led_qty e else 0)
      (filter (\<lambda>e. led_lot_id e = Some k) (issue_rows rid iid n as))) =
     sum_list (map il_qty (filter (\<lambda>a. il_lot_id a = k) as))"
  by (induction as arbitrary: n) auto

lemma issue_rows_lot_ids:
  "e \<in> set (issue_rows rid iid n as) \<Longrightarrow> \<exists>a \<in> set as. led_lot_id e = Some (il_lot_id a)"
  by (induction as arbitrary: n) auto

lemma available_lots_distinct:
  assumes "distinct (map l_id (inventory_lots s))"
  shows "distinct (map ld_id (get_available_lots s i q))"
proof -
  let ?ls = "filter (\<lambda>l. l_item_id l = i \<and> l_qc_status l = APPROVED) (inventory_lots s)"
  have "ld_id \<circ> lot_group s = l_id" by (simp add: fun_eq_iff lot_group_def)
  then have "map ld_id (map (lot_group s) ?ls) = map l_id ?ls" by (simp only: map_map)
  moreover have "distinct (map l_id ?ls)" using assms by (rule distinct_map_filter)
  ultimately have "distinct (map ld_id (map (lot_group s) ?ls))" by (simp only:)
  then have "distinct (map ld_id (filter (\<lambda>d. 0 < ld_received_qty d - ld_issued_qty d)
                 (map (lot_group s) ?ls)))"
    by (rule distinct_map_filter)
  moreover have "mset (map ld_id (get_available_lots s i q)) =
        mset (map ld_id (filter (\<lambda>d. 0 < ld_received_qty d - ld_issued_qty d)
                 (map (lot_group s) ?ls)))"
    by (simp add: get_available_lots_def)
  ultimately show ?thesis by (metis mset_eq_imp_distinct_iff)
qed

lemma available_lots_of_table:
  assumes "distinct (map l_id (inventory_lots s))" and "l \<in> set (inventory_lots s)"
      and "d \<in> set (get_available_lots s i q)" and "ld_id d = l_id l"
  shows "ld_available d = l_received_qty l - issued_qty_of s (l_id l)"
proof -
  from assms(3) obtain l' where l': "l' \<in> set (inventory_lots s)" "d = lot_group s l'"
    by (auto simp add: get_available_lots_def)
  then have "l_id l' = l_id l" using assms(4) by (simp add: lot_group_def)
  moreover have "inj_on l_id (set (inventory_lots s))"
    using assms(1) by (simp add: distinct_map)
  ultimately have "l' = l" using l'(1) assms(2) by (auto dest: inj_onD)
  then show ?thesis using l'(2) by (simp add: lot_group_def)
qed

lemma lots_inv_issue:
  assumes inv: "lots_invariant s"
  shows "lots_invariant (snd (issue_inventory s rid))"
proof (cases "fst (issue_inventory s rid)")
  case (Inl e)
  show ?thesis
    using issue_failed[OF Inl]
    by (intro lots_invariant_mono[OF inv]) (simp_all add: same_tables_def)
next
  case (Inr resp)
  let ?s' = "snd (issue_inventory s rid)"
  from issue_ok[OF Inr] obtain r :: reservation_row where
    r: "is_item_id resp = r_item_id r"
       "is_lots_issued resp = allocate (get_available_lots s (r_item_id r) (r_qty r)) (r_qty r)"
    by blast
  let ?lots = "get_available_lots s (r_item_id r) (r_qty r)"
  have dist: "distinct (map l_id (inventory_lots s))"
    and below: "\<forall>l \<in> set (inventory_lots s). l_id l < uuid_counter s"
    and refs: "\<forall>e \<in> set (inventory_ledger s). \<forall>lot_id. led_lot_id e = Some lot_id \<longrightarrow> lot_id < uuid_counter s"
    and bound: "\<forall>l \<in> set (inventory_lots s). issued_qty_of s (l_id l) \<le> l_received_qty l"
    using inv by (simp_all add: lots_invariant_def)
  have led: "inventory_ledger ?s' = inventory_ledger s @
           issue_rows rid (is_item_id resp) (uuid_counter s) (is_lots_issued resp) @
           [\<lparr>led_id = uuid_counter s + length (is_lots_issued resp),
             led_item_id = is_item_id resp, led_lot_id = None, led_txn_type = UNRESERVE,
             led_qty = is_qty resp, led_reservation_id = Some rid\<rparr>]"
    by (rule issue_ledger[OF Inr])
  have c: "uuid_counter s \<le> uuid_counter ?s'"
    using Inr
    by (auto simp add: issue_inventory_def issue_loop_eq uuid4_def txn_defs Let_def
          split: option.splits if_splits)
  have iss: "issued_qty_of ?s' k = issued_qty_of s k +
               sum_list (map il_qty (filter (\<lambda>a. il_lot_id a = k) (is_lots_issued resp)))" for k
    by (simp add: issued_qty_of_def led issue_rows_lot_sum)
  have ids: "ld_id ` set ?lots \<subseteq> l_id ` set (inventory_lots s)"
    by (auto simp add: get_available_lots_def lot_group_def)
  show ?thesis unfolding lots_invariant_def
  proof (intro conjI ballI allI impI)
    fix l assume "l \<in> set (inventory_lots ?s')"
    then show "l_id l < uuid_counter ?s'" using below c by fastforce
  next
    show "distinct (map l_id (inventory_lots ?s'))" using dist by simp
  next
    fix e k assume e: "e \<in> set (inventory_ledger ?s')" and k: "led_lot_id e = Some k"
    from e consider "e \<in> set (inventory_ledger s)"
      | "e \<in> set (issue_rows rid (is_item_id resp) (uuid_counter s) (is_lots_issued resp))"
      | "led_lot_id e = None"
      unfolding led by auto
    then have "k < uuid_counter s"
    proof cases
      case 1
      then show ?thesis using refs k by blast
    next
      case 2
      then obtain a where "a \<in> set (is_lots_issued resp)" "led_lot_id e = Some (il_lot_id a)"
        using issue_rows_lot_ids by blast
      then have "k \<in> ld_id ` set ?lots" using k allocate_ids unfolding r(2) by fastforce
      then show ?thesis using ids below by auto
    next
      case 3
      then show ?thesis using k by simp
    qed
    then show "k < uuid_counter ?s'" using c by simp
  next
    fix l assume "l \<in> set (inventory_lots ?s')"
    then have l: "l \<in> set (inventory_lots s)" by simp
    have per: "sum_list (map il_qty (filter (\<lambda>a. il_lot_id a = l_id l) (is_lots_issued resp))) \<le>
           (case find (\<lambda>d. ld_id d = l_id l) ?lots of None \<Rightarrow> 0 | Some d \<Rightarrow> ld_available d)"
      unfolding r(2)
      by (rule allocate_per_lot[OF available_lots_distinct[OF dist]])
         (simp add: available_lots_positive)
    have "(case find (\<lambda>d. ld_id d = l_id l) ?lots of None \<Rightarrow> 0 | Some d \<Rightarrow> ld_available d)
            \<le> l_received_qty l - issued_qty_of s (l_id l)"
    proof (cases "find (\<lambda>d. ld_id d = l_id l) ?lots")
      case None
      then show ?thesis using bound l by simp
    next
      case (Some d)
      then have "d \<in> set ?lots" "ld_id d = l_id l" by (blast dest: find_in_set)+
      then have "ld_available d = l_received_qty l - issued_qty_of s (l_id l)"
        using available_lots_of_table[OF dist l] by blast
      then show ?thesis using Some by simp
    qed
    then show "issued_qty_of ?s' (l_id l) \<le> l_received_qty l"
      using per by (simp add: iss)
  qed
qed

lemma lots_inv_handle: "lots_invariant s \<Longrightarrow> lots_invariant (handle s req)"
  by (cases req)
     (simp_all add: lots_inv_create_item lots_inv_receive lots_inv_reserve lots_inv_issue
        lots_inv_update)

lemma lots_inv_run: "lots_invariant s \<Longrightarrow> lots_invariant (run s reqs)"
  unfolding run_def by (induction reqs arbitrary: s) (simp_all add: lots_inv_handle)

lemma lots_inv_init: "lots_invariant init_db"
  by (simp add: lots_invariant_def init_db_def)

text \<open>
  After every request history no APPROVED lot is over-issued and every reservation holds a
  positive quantity: the two side conditions of the allocation theorem.
\<close>

lemma reachable_lot_availability:
  "d \<in> set (approved_lots_by_code (run init_db reqs) item_id) \<Longrightarrow> 0 \<le> ld_available d"
proof -
  assume "d \<in> set (approved_lots_by_code (run init_db reqs) item_id)"
  then obtain l where "l \<in> set (inventory_lots (run init_db reqs))"
      "d = lot_group (run init_db reqs) l"
    by (auto simp add: approved_lots_by_code_def)
  moreover have "lots_invariant (run init_db reqs)"
    by (rule lots_inv_run[OF lots_inv_init])
  ultimately show ?thesis
    by (simp add: lots_invariant_def lot_group_def)
qed

lemma reachable_reservation_positive:
  "r \<in> set (reservations (run init_db reqs)) \<Longrightarrow> 0 < r_qty r"
  using inv_run[OF inv_init, of reqs] by (simp add: stock_invariant_def)

subsection \<open>QC updates and the rows of the lots table\<close>

lemma update_outcome:
  "update_lot_qc_status s lot_id st =
     (if st = QUARANTINE then (Inl VALIDATION_ERROR, s)
      else if in_transaction s then (Inl INTERNAL_ERROR, s\<lparr>in_transaction := False\<rparr>)
      else if find (\<lambda>l. l_id l = lot_id) (inventory_lots s) = None
           then (Inl LOT_NOT_FOUND, s\<lparr>in_transaction := True\<rparr>)
      else (Inr (lot_id, st),
            s\<lparr>inventory_lots :=
                 map (\<lambda>l. if l_id l = lot_id then l\<lparr>l_qc_status := st\<rparr> else l)
                     (inventory_lots s)\<rparr>))"
  by (cases s) (simp add: update_lot_qc_status_def txn_defs split: option.splits)

lemma find_None_iff_set: "find P xs = None \<longleftrightarrow> \<not> list_ex P xs"
  by (induction xs) auto




lemma handle_lots:
  assumes "k < length (inventory_lots s)"
  shows "k < length (inventory_lots (handle s req)) \<and>
         l_id (inventory_lots (handle s req) ! k) = l_id (inventory_lots s ! k) \<and>
         l_item_id (inventory_lots (handle s req) ! k) = l_item_id (inventory_lots s ! k) \<and>
         l_lot_code (inventory_lots (handle s req) ! k) = l_lot_code (inventory_lots s ! k) \<and>
         l_received_qty (inventory_lots (handle s req) ! k) =
           l_received_qty (inventory_lots s ! k) \<and>
         (l_qc_status (inventory_lots s ! k) \<noteq> QUARANTINE \<longrightarrow>
            l_qc_status (inventory_lots (handle s req) ! k) \<noteq> QUARANTINE)"
proof (cases req)
  case (CreateItem code name qc)
  then show ?thesis using assms by (simp add: create_item_def uuid4_def txn_defs Let_def)
next
  case (Receive item_id lot_code qty)
  then show ?thesis using assms by (simp add: receive_lots nth_append)
next
  case (Reserve item_id qty)
  then show ?thesis using assms by simp
next
  case (Issue reservation_id)
  then show ?thesis using assms by simp
next
  case (UpdateQc lot_id st)
  then show ?thesis using assms by (simp add: update_outcome)
qed

lemma run_snoc: "run s (reqs @ [req]) = handle (run s reqs) req"
  by (simp add: run_def)

lemma run_lots:
  assumes "k < length (inventory_lots s)"
  shows "k < length (inventory_lots (run s reqs)) \<and>
         l_id (inventory_lots (run s reqs) ! k) = l_id (inventory_lots s ! k) \<and>
         l_item_id (inventory_lots (run s reqs) ! k) = l_item_id (inventory_lots s ! k) \<and>
         l_lot_code (inventory_lots (run s reqs) ! k) = l_lot_code (inventory_lots s ! k) \<and>
         l_received_qty (inventory_lots (run s reqs) ! k) =
           l_received_qty (inventory_lots s ! k) \<and>
         (l_qc_status (inventory_lots s ! k) \<noteq> QUARANTINE \<longrightarrow>
            l_qc_status (inventory_lots (run s reqs) ! k) \<noteq> QUARANTINE)"
proof (induction reqs rule: rev_induct)
  case Nil
  show ?case using assms by (simp add: run_def)
next
  case (snoc req reqs)
  then have k: "k < length (inventory_lots (run s reqs))" by simp
  show ?case
    using snoc handle_lots[OF k, of req] unfolding run_snoc by simp
qed

subsection \<open>A lot code stays taken\<close>

text \<open>
  After a successful receive and any further requests, a receive with the same lot code
  on a connection that is in no transaction fails with DUPLICATE_LOT_CODE, for whatever
  existing item, and leaves the tables as they were.
\<close>

lemma later_receive_of_same_lot_code:
  assumes "fst (receive_inventory s item_id lot_code qty) = Inr resp"
      and "t = run (snd (receive_inventory s item_id lot_code qty)) reqs"
      and "get_item t item_id' = Inr item'"
      and "0 < qty'"
      and "\<not> in_transaction t"
  shows "fst (receive_inventory t item_id' lot_code qty') = Inl DUPLICATE_LOT_CODE \<and>
         same_tables (snd (receive_inventory t item_id' lot_code qty')) t"
proof -
  let ?s1 = "snd (receive_inventory s item_id lot_code qty)"
  let ?k = "length (inventory_lots s)"
  have lots1: "inventory_lots ?s1 = inventory_lots s @
             [\<lparr>l_id = uuid_counter s, l_item_id = item_id, l_lot_code = lot_code,
               l_received_qty = qty, l_qc_status = rc_qc_status resp\<rparr>]"
    using assms(1) by (simp add: receive_lots)
  then have k: "?k < length (inventory_lots ?s1)"
    and code: "l_lot_code (inventory_lots ?s1 ! ?k) = lot_code"
    by simp_all
  from run_lots[OF k, of reqs] code
  have "?k < length (inventory_lots t)" "l_lot_code (inventory_lots t ! ?k) = lot_code"
    unfolding assms(2) by simp_all
  then have "lot_code \<in> set (map l_lot_code (inventory_lots t))"
    by (metis length_map nth_map nth_mem)
  from receive_duplicate[OF this assms(3,4,5)] show ?thesis
    by (simp add: same_tables_def)
qed

subsection \<open>The selection of a successful issue\<close>

lemma issue_selection:
  assumes "fst (issue_inventory s reservation_id) = Inr resp"
      and "0 < is_qty resp"
      and "\<forall>d \<in> set (approved_lots_by_code s (is_item_id resp)). 0 \<le> ld_available d"
  shows "is_lots_issued resp =
           spec_select_lots (approved_lots_by_code s (is_item_id resp)) (is_qty resp) \<and>
         sum_list (map il_qty (is_lots_issued resp)) = is_qty resp"
proof -
  from issue_ok[OF assms(1)] obtain r :: reservation_row where
    r: "is_item_id resp = r_item_id r" "is_qty resp = r_qty r"
       "r_qty r \<le> sum_list (map ld_available (get_available_lots s (r_item_id r) (r_qty r)))"
       "is_lots_issued resp = allocate (get_available_lots s (r_item_id r) (r_qty r)) (r_qty r)"
    by blast
  have q: "0 \<le> r_qty r" using assms(2) r(2) by simp
  have sel: "is_lots_issued resp =
           spec_select_lots (approved_lots_by_code s (is_item_id resp)) (is_qty resp)"
    unfolding r(4) available_lots_filter
    using assms(3) q by (simp add: r(1) r(2) allocate_spec)
  have total: "sum_list (map il_qty (is_lots_issued resp)) = is_qty resp"
    unfolding r(4) r(2)
    using q r(3) by (intro allocate_total) (auto simp: available_lots_positive)
  show ?thesis using sel total by simp
qed

section \<open>Availability in exact arithmetic\<close>

text \<open>
  With exact quantities, every request history on the empty database leaves the summary of
  every item with \<open>available = on_hand - (sum of the quantities of the item's OPEN
  reservations)\<close> and \<open>available\<close> not negative: a reserve is accepted only within
  \<open>available\<close>, and an issue lowers \<open>on_hand\<close> and the OPEN reservations by the same
  quantity. The lemma says nothing of the sums as the program computes them, in floating
  point, where a sum of receipts can round below the sum of the reservations accepted
  against it; it does not settle claim C1.
\<close>

lemma exact_availability_never_negative:
  "available (calculate_stock (run init_db reqs) item_id) =
     on_hand (calculate_stock (run init_db reqs) item_id) -
     sum_list (map r_qty (filter (\<lambda>r. r_item_id r = item_id \<and> r_status r = OPEN)
                            (reservations (run init_db reqs)))) \<and>
   0 \<le> available (calculate_stock (run init_db reqs) item_id)"
proof -
  have "stock_invariant (run init_db reqs)"
    by (rule inv_run[OF inv_init])
  then show ?thesis
    by (simp add: stock_invariant_def calculate_stock_def Let_def open_reserved_def)
qed

section \<open>The order in which lots are offered to the allocation\<close>

text \<open>
  Claim C2, as stated, asks that the APPROVED lots used by the allocation come in the order
  of their creation. The query of \<^verbatim>\<open>get_available_lots\<close> ends in
  \<^verbatim>\<open>ORDER BY l.lot_code ASC\<close>, and the lots table has no column that records
  when a lot was received. With LOT-B received before LOT-A, the lot created later comes
  first.
\<close>

theorem lots_not_in_creation_order:
  "map ld_lot_code (get_available_lots db_codes_reversed 0 1) = [''LOT-A'', ''LOT-B''] \<and>
   map l_lot_code (inventory_lots db_codes_reversed) = [''LOT-B'', ''LOT-A''] \<and>
   \<not> spec_creation_order db_codes_reversed (get_available_lots db_codes_reversed 0 1)"
  by code_simp

text \<open>
  Claim C2, amended. The lots offered to the allocation are exactly the APPROVED lots of
  the item with a positive remaining quantity, in ascending order of lot code (bytewise
  comparison), whatever the order in which they were created.
\<close>

theorem lots_in_lot_code_order:
  "sorted (map ld_lot_code (get_available_lots s item_id required_qty)) \<and>
   mset (get_available_lots s item_id required_qty) =
     mset (filter (\<lambda>d. 0 < ld_available d)
            (map (lot_group s)
              (filter (\<lambda>l. l_item_id l = item_id \<and> l_qc_status l = APPROVED)
                      (inventory_lots s))))"
proof -
  have "(\<lambda>d. 0 < ld_received_qty d - ld_issued_qty d) \<circ> lot_group s =
        (\<lambda>d. 0 < ld_available d) \<circ> lot_group s"
    by (simp add: fun_eq_iff lot_group_def)
  then have "filter (\<lambda>d. 0 < ld_received_qty d - ld_issued_qty d) (map (lot_group s) ls) =
        filter (\<lambda>d. 0 < ld_available d) (map (lot_group s) ls)" for ls
    by (simp add: filter_map)
  then show ?thesis
    by (simp add: get_available_lots_def)
qed

theorem lots_in_lot_code_order_witness:
  "sorted (map ld_lot_code (get_available_lots db_codes_reversed 0 1)) \<and>
   map ld_id (get_available_lots db_codes_reversed 0 1) = [3, 1] \<and>
   map l_id (inventory_lots db_codes_reversed) = [1, 3]"
proof -
  have a: "sorted (map ld_lot_code (get_available_lots db_codes_reversed 0 1))"
    using lots_in_lot_code_order[of db_codes_reversed 0 1] by (rule conjunct1)
  have b: "map ld_id (get_available_lots db_codes_reversed 0 1) = [3, 1]"
    by code_simp
  have c: "map l_id (inventory_lots db_codes_reversed) = [1, 3]"
    by code_simp
  show ?thesis using a b c by simp
qed

section \<open>The allocation of an issue\<close>

text \<open>
  Claim C3, as stated, says that issuing walks the APPROVED lots in FIFO order, the order
  of receipt. \<^verbatim>\<open>issue_inventory\<close> walks the list that \<^verbatim>\<open>get_available_lots\<close>
  returns, which is in ascending order of lot code. With the lots of the claim's scenario
  received as LOT-C (30), LOT-B (40), LOT-A (30), reserving and then issuing 80 takes 30
  from LOT-A, the lot received last, 40 from LOT-B and 10 from LOT-C, where the walk in
  order of receipt takes 30 from LOT-C, 40 from LOT-B and 10 from LOT-A.
\<close>

theorem issue_not_in_receipt_order:
  "map l_lot_code (inventory_lots db_fifo_cba) = [''LOT-C'', ''LOT-B'', ''LOT-A''] \<and>
   map l_id (inventory_lots db_fifo_cba) = [1, 3, 5] \<and>
   map l_received_qty (inventory_lots db_fifo_cba) = [30, 40, 30] \<and>
   map l_qc_status (inventory_lots db_fifo_cba) = [APPROVED, APPROVED, APPROVED] \<and>
   spec_select_lots (spec_fifo_lots db_fifo_cba 0) 80 =
     [\<lparr>il_lot_id = 1, il_lot_code = ''LOT-C'', il_qty = 30\<rparr>,
      \<lparr>il_lot_id = 3, il_lot_code = ''LOT-B'', il_qty = 40\<rparr>,
      \<lparr>il_lot_id = 5, il_lot_code = ''LOT-A'', il_qty = 10\<rparr>] \<and>
   fst (issue_inventory db_fifo_cba 7) =
     Inr \<lparr>is_reservation_id = 7, is_item_id = 0, is_qty = 80,
          is_lots_issued =
            [\<lparr>il_lot_id = 5, il_lot_code = ''LOT-A'', il_qty = 30\<rparr>,
             \<lparr>il_lot_id = 3, il_lot_code = ''LOT-B'', il_qty = 40\<rparr>,
             \<lparr>il_lot_id = 1, il_lot_code = ''LOT-C'', il_qty = 10\<rparr>]\<rparr>"
  by code_simp

text \<open>
  Claim C3, amended. A successful issue walks the APPROVED lots of the item in ascending
  order of lot code, takes \<open>min(lot_available, remaining)\<close> from each, skips lots with
  nothing available and stops when nothing remains: its \<open>lots_issued\<close> is the selection
  the spec describes, made over the lots in the order of their codes. That order is the
  order of receipt whenever the codes of the item's APPROVED lots ascend in the order of
  receipt, and the issue is then the FIFO selection. For lots LOT-A (30), LOT-B (40),
  LOT-C (30) received in this order for one item, reserving and then issuing 80 gives
  LOT-A: 30, LOT-B: 40, LOT-C: 10 in this order, 80 in total. The theorem is about a
  reservation of a positive quantity and about lots none of which has more issued than
  received; in exact arithmetic every state that a request history reaches is such a state
  (lemmas \<open>reachable_reservation_positive\<close> and \<open>reachable_lot_availability\<close>).
\<close>

theorem issue_walks_lots_in_code_order:
  assumes "fst (issue_inventory s reservation_id) = Inr resp"
      and "0 < is_qty resp"
      and "\<forall>d \<in> set (approved_lots_by_code s (is_item_id resp)). 0 \<le> ld_available d"
  shows "is_lots_issued resp =
           spec_select_lots (approved_lots_by_code s (is_item_id resp)) (is_qty resp) \<and>
         sorted (map ld_lot_code (approved_lots_by_code s (is_item_id resp))) \<and>
         mset (approved_lots_by_code s (is_item_id resp)) =
           mset (spec_fifo_lots s (is_item_id resp)) \<and>
         (sorted (map ld_lot_code (spec_fifo_lots s (is_item_id resp))) \<longrightarrow>
            is_lots_issued resp =
              spec_select_lots (spec_fifo_lots s (is_item_id resp)) (is_qty resp)) \<and>
         map l_lot_code (inventory_lots db_fifo_abc) = [''LOT-A'', ''LOT-B'', ''LOT-C''] \<and>
         map l_received_qty (inventory_lots db_fifo_abc) = [30, 40, 30] \<and>
         fst (issue_inventory db_fifo_abc 7) =
           Inr \<lparr>is_reservation_id = 7, is_item_id = 0, is_qty = 80,
                is_lots_issued =
                  [\<lparr>il_lot_id = 1, il_lot_code = ''LOT-A'', il_qty = 30\<rparr>,
                   \<lparr>il_lot_id = 3, il_lot_code = ''LOT-B'', il_qty = 40\<rparr>,
                   \<lparr>il_lot_id = 5, il_lot_code = ''LOT-C'', il_qty = 10\<rparr>]\<rparr> \<and>
         ledger_sum (snd (issue_inventory db_fifo_abc 7)) 0 ISSUE = 80"
proof -
  let ?i = "is_item_id resp"
  have by_code: "approved_lots_by_code s ?i = sort_key ld_lot_code (spec_fifo_lots s ?i)"
    by (simp add: approved_lots_by_code_def spec_fifo_lots_def)
  have sel: "is_lots_issued resp =
           spec_select_lots (approved_lots_by_code s ?i) (is_qty resp)"
    using issue_selection[OF assms] by (rule conjunct1)
  have srt: "sorted (map ld_lot_code (approved_lots_by_code s ?i))"
    by (simp add: by_code)
  have same: "mset (approved_lots_by_code s ?i) = mset (spec_fifo_lots s ?i)"
    by (simp add: by_code)
  have fifo: "sorted (map ld_lot_code (spec_fifo_lots s ?i)) \<longrightarrow>
            is_lots_issued resp = spec_select_lots (spec_fifo_lots s ?i) (is_qty resp)"
    using sel by (simp add: by_code sort_key_id_if_sorted)
  have codes: "map l_lot_code (inventory_lots db_fifo_abc) = [''LOT-A'', ''LOT-B'', ''LOT-C'']"
    by code_simp
  have qtys: "map l_received_qty (inventory_lots db_fifo_abc) = [30, 40, 30]"
    by code_simp
  have abc: "fst (issue_inventory db_fifo_abc 7) =
           Inr \<lparr>is_reservation_id = 7, is_item_id = 0, is_qty = 80,
                is_lots_issued =
                  [\<lparr>il_lot_id = 1, il_lot_code = ''LOT-A'', il_qty = 30\<rparr>,
                   \<lparr>il_lot_id = 3, il_lot_code = ''LOT-B'', il_qty = 40\<rparr>,
                   \<lparr>il_lot_id = 5, il_lot_code = ''LOT-C'', il_qty = 10\<rparr>]\<rparr>"
    by code_simp
  have total: "ledger_sum (snd (issue_inventory db_fifo_abc 7)) 0 ISSUE = 80" by code_simp
  show ?thesis
    by (intro conjI sel srt same fifo codes qtys abc total)
qed

theorem issue_walks_lots_in_code_order_witness:
  "fst (issue_inventory db_fifo_abc 7) =
     Inr \<lparr>is_reservation_id = 7, is_item_id = 0, is_qty = 80,
          is_lots_issued =
            [\<lparr>il_lot_id = 1, il_lot_code = ''LOT-A'', il_qty = 30\<rparr>,
             \<lparr>il_lot_id = 3, il_lot_code = ''LOT-B'', il_qty = 40\<rparr>,
             \<lparr>il_lot_id = 5, il_lot_code = ''LOT-C'', il_qty = 10\<rparr>]\<rparr> \<and>
   (0::rat) < 80 \<and>
   list_all (\<lambda>d. 0 \<le> ld_available d) (approved_lots_by_code db_fifo_abc 0) \<and>
   sorted (map ld_lot_code (spec_fifo_lots db_fifo_abc 0)) \<and>
   spec_select_lots (approved_lots_by_code db_fifo_abc 0) 80 =
     [\<lparr>il_lot_id = 1, il_lot_code = ''LOT-A'', il_qty = 30\<rparr>,
      \<lparr>il_lot_id = 3, il_lot_code = ''LOT-B'', il_qty = 40\<rparr>,
      \<lparr>il_lot_id = 5, il_lot_code = ''LOT-C'', il_qty = 10\<rparr>] \<and>
   spec_select_lots (spec_fifo_lots db_fifo_abc 0) 80 =
     [\<lparr>il_lot_id = 1, il_lot_code = ''LOT-A'', il_qty = 30\<rparr>,
      \<lparr>il_lot_id = 3, il_lot_code = ''LOT-B'', il_qty = 40\<rparr>,
      \<lparr>il_lot_id = 5, il_lot_code = ''LOT-C'', il_qty = 10\<rparr>]"
proof -
  let ?lots = "[\<lparr>il_lot_id = 1, il_lot_code = ''LOT-A'', il_qty = 30\<rparr>,
             \<lparr>il_lot_id = 3, il_lot_code = ''LOT-B'', il_qty = 40\<rparr>,
             \<lparr>il_lot_id = 5, il_lot_code = ''LOT-C'', il_qty = 10\<rparr>]"
  let ?resp = "\<lparr>is_reservation_id = 7, is_item_id = 0, is_qty = 80,
          is_lots_issued = ?lots\<rparr>"
  have h1: "fst (issue_inventory db_fifo_abc 7) = Inr ?resp"
    by code_simp
  have h2: "0 < is_qty ?resp" by simp
  have a: "list_all (\<lambda>d. 0 \<le> ld_available d) (approved_lots_by_code db_fifo_abc 0)"
    by code_simp
  then have h3: "\<forall>d \<in> set (approved_lots_by_code db_fifo_abc (is_item_id ?resp)).
                   0 \<le> ld_available d"
    by (simp add: list_all_iff)
  have s: "sorted (map ld_lot_code (spec_fifo_lots db_fifo_abc 0))"
    by code_simp
  note walk = issue_walks_lots_in_code_order[OF h1 h2 h3]
  have by_code: "spec_select_lots (approved_lots_by_code db_fifo_abc 0) 80 = ?lots"
    using walk[THEN conjunct1] by simp
  have fifo: "spec_select_lots (spec_fifo_lots db_fifo_abc 0) 80 = ?lots"
    using walk[THEN conjunct2, THEN conjunct2, THEN conjunct2, THEN conjunct1] s by simp
  show ?thesis
    using h1 a s by_code fifo by simp
qed

section \<open>What a reservation checks\<close>

text \<open>
  Claim C4, as stated, says that a reserve succeeds only if the APPROVED lots of the item
  together hold at least the requested quantity. \<^verbatim>\<open>reserve_inventory\<close> compares the
  request with the item's \<open>available\<close>, which counts the stock of every lot whatever its
  QC status, and then asks only whether the lot query returns any lot at all. With 10
  approved and 100 in quarantine, a reserve of 50 succeeds.
\<close>

theorem reserve_beyond_approved_stock:
  "fst (reserve_inventory db_partly_approved 0 50) =
     Inr \<lparr>rv_reservation_id = 5, rv_item_id = 0, rv_qty = 50, rv_status = OPEN\<rparr> \<and>
   sum_list (map ld_available (get_available_lots db_partly_approved 0 50)) = 10 \<and>
   sum_list (map ld_available (get_available_lots db_partly_approved 0 50)) < 50 \<and>
   map l_qc_status (inventory_lots db_partly_approved) = [APPROVED, QUARANTINE]"
  by code_simp

text \<open>
  Claim C4, amended. Reservation creation consults the same lot query as issuing, but only
  to see that it is not empty. On a connection that no earlier request has left inside a
  transaction, a reserve of a positive quantity for an existing item fails with
  INSUFFICIENT_STOCK when the quantity exceeds the item's \<open>available\<close>; otherwise
  it fails with NO_QC_APPROVED_LOT when no APPROVED lot of the item has a positive
  remaining quantity (lots in QUARANTINE do not count here); otherwise it succeeds and
  creates an OPEN reservation with its RESERVE ledger row. It does not compare the
  quantity with the stock of the APPROVED lots, and fails with no other business error.
  A failed reserve changes nothing.
\<close>

theorem reserve_checks:
  assumes "0 < qty" and "get_item s item_id = Inr item" and "\<not> in_transaction s"
  shows "fst (reserve_inventory s item_id qty) =
           (if available (calculate_stock s item_id) < qty then Inl INSUFFICIENT_STOCK
            else if \<not> list_ex (\<lambda>l. l_item_id l = item_id \<and> l_qc_status l = APPROVED \<and>
                                   0 < l_received_qty l - issued_qty_of s (l_id l))
                          (inventory_lots s)
                 then Inl NO_QC_APPROVED_LOT
            else Inr \<lparr>rv_reservation_id = uuid_counter s, rv_item_id = item_id,
                      rv_qty = qty, rv_status = OPEN\<rparr>) \<and>
         (isl (fst (reserve_inventory s item_id qty)) \<longrightarrow>
            snd (reserve_inventory s item_id qty) = s) \<and>
         (\<not> isl (fst (reserve_inventory s item_id qty)) \<longrightarrow>
            reservations (snd (reserve_inventory s item_id qty)) =
              reservations s @
                [\<lparr>r_id = uuid_counter s, r_item_id = item_id, r_qty = qty, r_status = OPEN\<rparr>] \<and>
            inventory_ledger (snd (reserve_inventory s item_id qty)) =
              inventory_ledger s @
                [\<lparr>led_id = Suc (uuid_counter s), led_item_id = item_id, led_lot_id = None,
                  led_txn_type = RESERVE, led_qty = qty,
                  led_reservation_id = Some (uuid_counter s)\<rparr>])"
proof -
  have out: "fst (reserve_inventory s item_id qty) =
           (if available (calculate_stock s item_id) < qty then Inl INSUFFICIENT_STOCK
            else if \<not> list_ex (\<lambda>l. l_item_id l = item_id \<and> l_qc_status l = APPROVED \<and>
                                   0 < l_received_qty l - issued_qty_of s (l_id l))
                          (inventory_lots s)
                 then Inl NO_QC_APPROVED_LOT
            else Inr \<lparr>rv_reservation_id = uuid_counter s, rv_item_id = item_id,
                      rv_qty = qty, rv_status = OPEN\<rparr>)"
    using assms by (simp add: reserve_outcome available_lots_empty_iff)
  have failed: "isl (fst (reserve_inventory s item_id qty)) \<longrightarrow>
            snd (reserve_inventory s item_id qty) = s"
    using assms(2,3)
    by (cases "fst (reserve_inventory s item_id qty)") (simp_all add: reserve_failed_clean)
  have ok: "\<not> isl (fst (reserve_inventory s item_id qty)) \<longrightarrow>
            reservations (snd (reserve_inventory s item_id qty)) =
              reservations s @
                [\<lparr>r_id = uuid_counter s, r_item_id = item_id, r_qty = qty, r_status = OPEN\<rparr>] \<and>
            inventory_ledger (snd (reserve_inventory s item_id qty)) =
              inventory_ledger s @
                [\<lparr>led_id = Suc (uuid_counter s), led_item_id = item_id, led_lot_id = None,
                  led_txn_type = RESERVE, led_qty = qty,
                  led_reservation_id = Some (uuid_counter s)\<rparr>]"
    by (simp add: reserve_reservations reserve_ledger)
  show ?thesis using out failed ok by blast
qed

theorem reserve_checks_witness:
  "(0::rat) < 50 \<and>
   \<not> in_transaction db_partly_approved \<and>
   get_item db_partly_approved 0 =
     Inr \<lparr>i_id = 0, i_code = ''ITEM-QC'', i_name = ''Test Item'', i_qc_required = True\<rparr> \<and>
   \<not> available (calculate_stock db_partly_approved 0) < 50 \<and>
   list_ex (\<lambda>l. l_item_id l = 0 \<and> l_qc_status l = APPROVED \<and>
                 0 < l_received_qty l - issued_qty_of db_partly_approved (l_id l))
           (inventory_lots db_partly_approved) \<and>
   fst (reserve_inventory db_partly_approved 0 50) =
     Inr \<lparr>rv_reservation_id = 5, rv_item_id = 0, rv_qty = 50, rv_status = OPEN\<rparr> \<and>
   reservations (snd (reserve_inventory db_partly_approved 0 50)) =
     [\<lparr>r_id = 5, r_item_id = 0, r_qty = 50, r_status = OPEN\<rparr>]"
proof -
  have h1: "(0::rat) < 50" by simp
  have h2: "get_item db_partly_approved 0 =
     Inr \<lparr>i_id = 0, i_code = ''ITEM-QC'', i_name = ''Test Item'', i_qc_required = True\<rparr>"
    by code_simp
  have h3: "\<not> in_transaction db_partly_approved" by code_simp
  have a: "\<not> available (calculate_stock db_partly_approved 0) < 50" by code_simp
  have b: "list_ex (\<lambda>l. l_item_id l = 0 \<and> l_qc_status l = APPROVED \<and>
                 0 < l_received_qty l - issued_qty_of db_partly_approved (l_id l))
           (inventory_lots db_partly_approved)" by code_simp
  have c: "uuid_counter db_partly_approved = 5" by code_simp
  have d: "reservations db_partly_approved = []" by code_simp
  show ?thesis
    using reserve_checks[OF h1 h2 h3] h2 h3 a b c d by simp
qed

section \<open>No double issue\<close>

text \<open>
  On a connection that is in no transaction, an issue request on a reservation whose
  status is not OPEN fails with RESERVATION_ALREADY_ISSUED and changes nothing (lemmas
  \<open>issue_not_open\<close> and \<open>second_issue_rejected\<close>). Claim C5 says so of every such
  request, and that is not what the program does. \<^verbatim>\<open>reserve_inventory\<close> calls
  \<^verbatim>\<open>get_item\<close> after \<^verbatim>\<open>BEGIN IMMEDIATE\<close>, and the ITEM_NOT_FOUND it raises
  for an unknown item leaves the handler without the \<^verbatim>\<open>conn.rollback()\<close> that
  precedes its two other errors. The transaction stays open, the \<^verbatim>\<open>BEGIN IMMEDIATE\<close>
  of the next request on the connection fails, and that request is answered with
  INTERNAL_ERROR. After receive 100, reserve 30 and issue, a reserve for an unknown item
  makes the second issue of the same reservation end so; without that reserve it is
  rejected with RESERVATION_ALREADY_ISSUED.
\<close>

theorem issue_after_unknown_item_reserve:
  "db_issued_30_then_unknown_item =
     run init_db [CreateItem ''ITEM-1'' ''Test Item'' False, Receive 0 ''LOT-001'' 100,
                  Reserve 0 30, Issue 3, Reserve 99 1] \<and>
   map r_id (reservations db_issued_30) = [3] \<and>
   map r_status (reservations db_issued_30) = [ISSUED] \<and>
   fst (issue_inventory db_issued_30 3) = Inl RESERVATION_ALREADY_ISSUED \<and>
   fst (reserve_inventory db_issued_30 99 1) = Inl ITEM_NOT_FOUND \<and>
   in_transaction db_issued_30_then_unknown_item \<and>
   map r_id (reservations db_issued_30_then_unknown_item) = [3] \<and>
   map r_status (reservations db_issued_30_then_unknown_item) = [ISSUED] \<and>
   fst (issue_inventory db_issued_30_then_unknown_item 3) = Inl INTERNAL_ERROR \<and>
   inventory_ledger (snd (issue_inventory db_issued_30_then_unknown_item 3)) =
     inventory_ledger db_issued_30"
proof -
  have h: "db_issued_30_then_unknown_item =
     run init_db [CreateItem ''ITEM-1'' ''Test Item'' False, Receive 0 ''LOT-001'' 100,
                  Reserve 0 30, Issue 3, Reserve 99 1]"
    by (simp add: db_issued_30_then_unknown_item_def db_issued_30_def db_reserved_30_def
          db_received_100_def run_def)
  have a: "map r_id (reservations db_issued_30) = [3]" by code_simp
  have b: "map r_status (reservations db_issued_30) = [ISSUED]" by code_simp
  have c: "fst (issue_inventory db_issued_30 3) = Inl RESERVATION_ALREADY_ISSUED"
    by code_simp
  have d: "fst (reserve_inventory db_issued_30 99 1) = Inl ITEM_NOT_FOUND" by code_simp
  have e: "in_transaction db_issued_30_then_unknown_item" by code_simp
  have f: "map r_id (reservations db_issued_30_then_unknown_item) = [3]" by code_simp
  have g: "map r_status (reservations db_issued_30_then_unknown_item) = [ISSUED]"
    by code_simp
  have i: "fst (issue_inventory db_issued_30_then_unknown_item 3) = Inl INTERNAL_ERROR"
    by code_simp
  have j: "inventory_ledger (snd (issue_inventory db_issued_30_then_unknown_item 3)) =
     inventory_ledger db_issued_30"
    by code_simp
  show ?thesis
    by (intro conjI h a b c d e f g i j)
qed

section \<open>What a successful issue writes\<close>

text \<open>
  Claim C6. A successful issue of an OPEN reservation appends to the ledger one ISSUE
  row for each entry of \<open>lots_issued\<close>, in that order, each carrying the lot, the
  quantity taken from it and the reservation id, and then exactly one UNRESERVE row for the
  whole reserved quantity; the reservation's status becomes ISSUED. In the scenario
  receive 100 (no QC), reserve 30, issue, the summary goes from
  \<open>(100, 30, 70)\<close> to \<open>(70, 0, 70)\<close>, and a reserve of 1000 then fails with
  INSUFFICIENT_STOCK.
\<close>

theorem issue_writes_ledger:
  assumes "fst (issue_inventory s reservation_id) = Inr resp"
  shows "inventory_ledger (snd (issue_inventory s reservation_id)) =
           inventory_ledger s @
           issue_rows reservation_id (is_item_id resp) (uuid_counter s) (is_lots_issued resp) @
           [\<lparr>led_id = uuid_counter s + length (is_lots_issued resp),
             led_item_id = is_item_id resp, led_lot_id = None, led_txn_type = UNRESERVE,
             led_qty = is_qty resp, led_reservation_id = Some reservation_id\<rparr>] \<and>
         map led_lot_id (issue_rows reservation_id (is_item_id resp) (uuid_counter s)
                           (is_lots_issued resp)) =
           map (\<lambda>a. Some (il_lot_id a)) (is_lots_issued resp) \<and>
         map led_qty (issue_rows reservation_id (is_item_id resp) (uuid_counter s)
                        (is_lots_issued resp)) =
           map il_qty (is_lots_issued resp) \<and>
         list_all (\<lambda>e. led_txn_type e = ISSUE \<and> led_reservation_id e = Some reservation_id)
           (issue_rows reservation_id (is_item_id resp) (uuid_counter s) (is_lots_issued resp)) \<and>
         (\<exists>r. find (\<lambda>r. r_id r = reservation_id) (reservations s) = Some r \<and>
              r_status r = OPEN \<and> r_item_id r = is_item_id resp \<and> r_qty r = is_qty resp \<and>
              find (\<lambda>r. r_id r = reservation_id)
                (reservations (snd (issue_inventory s reservation_id))) =
                Some (r\<lparr>r_status := ISSUED\<rparr>)) \<and>
         calculate_stock db_reserved_30 0 = \<lparr>on_hand = 100, reserved = 30, available = 70\<rparr> \<and>
         fst (issue_inventory db_reserved_30 3) =
           Inr \<lparr>is_reservation_id = 3, is_item_id = 0, is_qty = 30,
                is_lots_issued = [\<lparr>il_lot_id = 1, il_lot_code = ''LOT-001'', il_qty = 30\<rparr>]\<rparr> \<and>
         calculate_stock (snd (issue_inventory db_reserved_30 3)) 0 =
           \<lparr>on_hand = 70, reserved = 0, available = 70\<rparr> \<and>
         fst (reserve_inventory (snd (issue_inventory db_reserved_30 3)) 0 1000) =
           Inl INSUFFICIENT_STOCK"
proof -
  have rows: "map led_lot_id (issue_rows rid iid n as) = map (\<lambda>a. Some (il_lot_id a)) as \<and>
              map led_qty (issue_rows rid iid n as) = map il_qty as \<and>
              list_all (\<lambda>e. led_txn_type e = ISSUE \<and> led_reservation_id e = Some rid)
                (issue_rows rid iid n as)" for rid iid n as
    by (induction as arbitrary: n) simp_all
  have s1: "calculate_stock db_reserved_30 0 = \<lparr>on_hand = 100, reserved = 30, available = 70\<rparr>"
    by code_simp
  have s2: "fst (issue_inventory db_reserved_30 3) =
           Inr \<lparr>is_reservation_id = 3, is_item_id = 0, is_qty = 30,
                is_lots_issued = [\<lparr>il_lot_id = 1, il_lot_code = ''LOT-001'', il_qty = 30\<rparr>]\<rparr>"
    by code_simp
  have s3: "calculate_stock (snd (issue_inventory db_reserved_30 3)) 0 =
           \<lparr>on_hand = 70, reserved = 0, available = 70\<rparr>"
    by code_simp
  have s4: "fst (reserve_inventory (snd (issue_inventory db_reserved_30 3)) 0 1000) =
           Inl INSUFFICIENT_STOCK"
    by code_simp
  show ?thesis
    using issue_ledger[OF assms] issue_marks_issued[OF assms] rows s1 s2 s3 s4
    by simp
qed

theorem issue_writes_ledger_witness:
  "fst (issue_inventory db_reserved_30 3) =
     Inr \<lparr>is_reservation_id = 3, is_item_id = 0, is_qty = 30,
          is_lots_issued = [\<lparr>il_lot_id = 1, il_lot_code = ''LOT-001'', il_qty = 30\<rparr>]\<rparr> \<and>
   inventory_ledger (snd (issue_inventory db_reserved_30 3)) =
     inventory_ledger db_reserved_30 @
     [\<lparr>led_id = 5, led_item_id = 0, led_lot_id = Some 1, led_txn_type = ISSUE, led_qty = 30,
       led_reservation_id = Some 3\<rparr>,
      \<lparr>led_id = 6, led_item_id = 0, led_lot_id = None, led_txn_type = UNRESERVE, led_qty = 30,
       led_reservation_id = Some 3\<rparr>]"
proof -
  have h: "fst (issue_inventory db_reserved_30 3) =
     Inr \<lparr>is_reservation_id = 3, is_item_id = 0, is_qty = 30,
          is_lots_issued = [\<lparr>il_lot_id = 1, il_lot_code = ''LOT-001'', il_qty = 30\<rparr>]\<rparr>"
    by code_simp
  have c: "uuid_counter db_reserved_30 = 5" by code_simp
  show ?thesis
    using issue_writes_ledger[OF h] h c by simp
qed

section \<open>QC gating of a newly received lot\<close>




section \<open>Lot codes are unique across all items\<close>

text \<open>
  On a connection that is in no transaction, a receive with the lot code of an earlier
  successful receive, for whatever existing item and after whatever requests in between,
  fails with DUPLICATE_LOT_CODE and leaves every table as it was (lemma
  \<open>later_receive_of_same_lot_code\<close>). Claim C8 says so of every two receives with the
  same lot code, and that is not what the program does. \<^verbatim>\<open>update_lot_qc_status\<close> raises
  LOT_NOT_FOUND for an unknown lot after \<^verbatim>\<open>BEGIN IMMEDIATE\<close> and without
  \<^verbatim>\<open>conn.rollback()\<close>. The transaction stays open, the \<^verbatim>\<open>BEGIN IMMEDIATE\<close> of
  the next request on the connection fails, and that request is answered with
  INTERNAL_ERROR. After a receive of LOT-001, a QC update of an unknown lot makes the
  second receive of LOT-001 end so; without that update it is rejected with
  DUPLICATE_LOT_CODE. In both cases the first lot and its RECEIVE row stay as they were.
\<close>

theorem duplicate_receive_after_unknown_lot_update:
  "db_received_100_then_unknown_lot =
     run init_db [CreateItem ''ITEM-1'' ''Test Item'' False, Receive 0 ''LOT-001'' 100,
                  UpdateQc 99 APPROVED] \<and>
   map l_lot_code (inventory_lots db_received_100) = [''LOT-001''] \<and>
   fst (receive_inventory db_received_100 0 ''LOT-001'' 50) = Inl DUPLICATE_LOT_CODE \<and>
   fst (update_lot_qc_status db_received_100 99 APPROVED) = Inl LOT_NOT_FOUND \<and>
   in_transaction db_received_100_then_unknown_lot \<and>
   map l_lot_code (inventory_lots db_received_100_then_unknown_lot) = [''LOT-001''] \<and>
   fst (receive_inventory db_received_100_then_unknown_lot 0 ''LOT-001'' 50) =
     Inl INTERNAL_ERROR \<and>
   same_tables (snd (receive_inventory db_received_100_then_unknown_lot 0 ''LOT-001'' 50))
     db_received_100"
proof -
  have h: "db_received_100_then_unknown_lot =
     run init_db [CreateItem ''ITEM-1'' ''Test Item'' False, Receive 0 ''LOT-001'' 100,
                  UpdateQc 99 APPROVED]"
    by (simp add: db_received_100_then_unknown_lot_def db_received_100_def run_def)
  have a: "map l_lot_code (inventory_lots db_received_100) = [''LOT-001'']" by code_simp
  have b: "fst (receive_inventory db_received_100 0 ''LOT-001'' 50) = Inl DUPLICATE_LOT_CODE"
    by code_simp
  have c: "fst (update_lot_qc_status db_received_100 99 APPROVED) = Inl LOT_NOT_FOUND"
    by code_simp
  have d: "in_transaction db_received_100_then_unknown_lot" by code_simp
  have e: "map l_lot_code (inventory_lots db_received_100_then_unknown_lot) = [''LOT-001'']"
    by code_simp
  have f: "fst (receive_inventory db_received_100_then_unknown_lot 0 ''LOT-001'' 50) =
     Inl INTERNAL_ERROR"
    by code_simp
  have g: "same_tables
     (snd (receive_inventory db_received_100_then_unknown_lot 0 ''LOT-001'' 50))
     db_received_100"
    by code_simp
  show ?thesis
    by (intro conjI h a b c d e f g)
qed

section \<open>Transitions of the QC status\<close>

text \<open>
  Claim C9, as stated, says that APPROVED and REJECTED are terminal.
  \<^verbatim>\<open>update_lot_qc_status\<close> looks the lot up and overwrites its status without reading
  the current one: an APPROVED lot is set to REJECTED, and back to APPROVED.
\<close>

theorem approved_lot_can_be_rejected:
  "map l_qc_status (inventory_lots db_received_100) = [APPROVED] \<and>
   fst (update_lot_qc_status db_received_100 1 REJECTED) = Inr (1, REJECTED) \<and>
   map l_qc_status (inventory_lots (run db_received_100 [UpdateQc 1 REJECTED])) = [REJECTED] \<and>
   map l_qc_status
     (inventory_lots (run db_received_100 [UpdateQc 1 REJECTED, UpdateQc 1 APPROVED])) =
     [APPROVED]"
  by code_simp

text \<open>
  Claim C9, amended. On a connection that no earlier request has left inside a
  transaction, a QC update of an existing lot to APPROVED or REJECTED succeeds whatever
  the lot's current status and gives the lot the requested status; a QC update to
  QUARANTINE is never accepted. No sequence of operations moves a lot to QUARANTINE: a lot
  that is APPROVED or REJECTED is APPROVED or REJECTED after every further request history,
  and the other columns of its row never change.
\<close>

theorem qc_status_never_back_to_quarantine:
  assumes "k < length (inventory_lots s)"
  shows "(st \<noteq> QUARANTINE \<and> \<not> in_transaction s \<longrightarrow>
            fst (update_lot_qc_status s (l_id (inventory_lots s ! k)) st) =
              Inr (l_id (inventory_lots s ! k), st) \<and>
            l_qc_status
              (inventory_lots (snd (update_lot_qc_status s (l_id (inventory_lots s ! k)) st)) ! k)
              = st) \<and>
         fst (update_lot_qc_status s lot_id QUARANTINE) = Inl VALIDATION_ERROR \<and>
         snd (update_lot_qc_status s lot_id QUARANTINE) = s \<and>
         k < length (inventory_lots (run s reqs)) \<and>
         l_id (inventory_lots (run s reqs) ! k) = l_id (inventory_lots s ! k) \<and>
         l_item_id (inventory_lots (run s reqs) ! k) = l_item_id (inventory_lots s ! k) \<and>
         l_lot_code (inventory_lots (run s reqs) ! k) = l_lot_code (inventory_lots s ! k) \<and>
         l_received_qty (inventory_lots (run s reqs) ! k) =
           l_received_qty (inventory_lots s ! k) \<and>
         (l_qc_status (inventory_lots s ! k) \<noteq> QUARANTINE \<longrightarrow>
            l_qc_status (inventory_lots (run s reqs) ! k) \<noteq> QUARANTINE)"
proof -
  have "list_ex (\<lambda>l. l_id l = l_id (inventory_lots s ! k)) (inventory_lots s)"
    using assms by (auto simp add: list_ex_iff)
  then have found: "find (\<lambda>l. l_id l = l_id (inventory_lots s ! k)) (inventory_lots s) \<noteq> None"
    by (simp add: find_None_iff_set)
  have upd: "st \<noteq> QUARANTINE \<and> \<not> in_transaction s \<longrightarrow>
            fst (update_lot_qc_status s (l_id (inventory_lots s ! k)) st) =
              Inr (l_id (inventory_lots s ! k), st) \<and>
            l_qc_status
              (inventory_lots (snd (update_lot_qc_status s (l_id (inventory_lots s ! k)) st)) ! k)
              = st"
    using found assms by (auto simp add: update_outcome)
  have rej: "fst (update_lot_qc_status s lot_id QUARANTINE) = Inl VALIDATION_ERROR \<and>
         snd (update_lot_qc_status s lot_id QUARANTINE) = s"
    by (simp add: update_outcome)
  show ?thesis
    using upd rej run_lots[OF assms, of reqs] by simp
qed

theorem qc_status_never_back_to_quarantine_witness:
  "(0::nat) < length (inventory_lots db_received_100) \<and>
   \<not> in_transaction db_received_100 \<and>
   l_qc_status (inventory_lots db_received_100 ! 0) = APPROVED \<and>
   l_id (inventory_lots db_received_100 ! 0) = 1 \<and>
   fst (update_lot_qc_status db_received_100 1 REJECTED) = Inr (1, REJECTED) \<and>
   l_qc_status (inventory_lots (snd (update_lot_qc_status db_received_100 1 REJECTED)) ! 0) =
     REJECTED \<and>
   l_qc_status (inventory_lots (run db_received_100 [UpdateQc 1 REJECTED, Reserve 0 5]) ! 0)
     \<noteq> QUARANTINE"
proof -
  have h: "(0::nat) < length (inventory_lots db_received_100)" by code_simp
  have c: "\<not> in_transaction db_received_100" by code_simp
  have a: "l_qc_status (inventory_lots db_received_100 ! 0) = APPROVED" by code_simp
  have b: "l_id (inventory_lots db_received_100 ! 0) = 1" by code_simp
  show ?thesis
    using qc_status_never_back_to_quarantine
            [OF h, of REJECTED 1 "[UpdateQc 1 REJECTED, Reserve 0 5]"] h a b c
    by simp
qed

section \<open>Reserving when the approved lots are exhausted\<close>

text \<open>
  Claim C10, as stated, says that reserve reports NO_QC_APPROVED_LOT rather than
  INSUFFICIENT_STOCK whenever every APPROVED lot of the item is fully issued. The
  comparison with \<open>available\<close> comes first in \<^verbatim>\<open>reserve_inventory\<close>: when the
  exhausted lot is all the item has, \<open>available\<close> is 0 and every reserve fails with
  INSUFFICIENT_STOCK, as the repository's test \<^verbatim>\<open>test_no_negative_stock\<close> expects.
\<close>

theorem reserve_exhausted_reports_insufficient_stock:
  "map l_qc_status (inventory_lots db_exhausted) = [APPROVED] \<and>
   map l_id (inventory_lots db_exhausted) = [1] \<and>
   map l_received_qty (inventory_lots db_exhausted) = [100] \<and>
   issued_qty_of db_exhausted 1 = 100 \<and>
   get_available_lots db_exhausted 0 10 = [] \<and>
   fst (reserve_inventory db_exhausted 0 10) = Inl INSUFFICIENT_STOCK"
  by code_simp

text \<open>
  Claim C10, amended. On a connection that no earlier request has left inside a
  transaction: when the requested quantity does not exceed the item's
  \<open>available\<close>, a reserve fails with NO_QC_APPROVED_LOT whenever no APPROVED lot of the
  item has a positive remaining quantity (received minus issued), be it that the item has
  no APPROVED lot or that all its APPROVED lots are exhausted; when the quantity exceeds
  \<open>available\<close> the reserve fails with INSUFFICIENT_STOCK first. In both cases nothing
  changes.
\<close>

theorem reserve_without_positive_approved_lot:
  assumes "0 < qty"
      and "get_item s item_id = Inr item"
      and "\<not> in_transaction s"
      and "\<forall>l \<in> set (inventory_lots s).
             l_item_id l = item_id \<and> l_qc_status l = APPROVED \<longrightarrow>
             l_received_qty l - issued_qty_of s (l_id l) \<le> 0"
  shows "reserve_inventory s item_id qty =
           (if available (calculate_stock s item_id) < qty
            then (Inl INSUFFICIENT_STOCK, s) else (Inl NO_QC_APPROVED_LOT, s))"
proof -
  have "\<not> list_ex (\<lambda>l. l_item_id l = item_id \<and> l_qc_status l = APPROVED \<and>
                     0 < l_received_qty l - issued_qty_of s (l_id l)) (inventory_lots s)"
    using assms(4) by (auto simp add: list_ex_iff)
  then have "get_available_lots s item_id qty = []"
    by (simp add: available_lots_empty_iff)
  then have out: "fst (reserve_inventory s item_id qty) =
           (if available (calculate_stock s item_id) < qty
            then Inl INSUFFICIENT_STOCK else Inl NO_QC_APPROVED_LOT)"
    using assms(1,2,3) by (simp add: reserve_outcome)
  then have "snd (reserve_inventory s item_id qty) = s"
    by (intro reserve_failed_clean[OF _ assms(3,2), of qty
          "if available (calculate_stock s item_id) < qty
           then INSUFFICIENT_STOCK else NO_QC_APPROVED_LOT"]) (simp split: if_splits)
  then show ?thesis
    using out by (simp add: prod_eq_iff)
qed

theorem reserve_without_positive_approved_lot_witness:
  "(0::rat) < 10 \<and>
   \<not> in_transaction db_exhausted_and_quarantined \<and>
   get_item db_exhausted_and_quarantined 0 =
     Inr \<lparr>i_id = 0, i_code = ''ITEM-QC'', i_name = ''Test Item'', i_qc_required = True\<rparr> \<and>
   list_all (\<lambda>l. \<not> (l_item_id l = 0 \<and> l_qc_status l = APPROVED) \<or>
                  l_received_qty l - issued_qty_of db_exhausted_and_quarantined (l_id l) \<le> 0)
     (inventory_lots db_exhausted_and_quarantined) \<and>
   map l_qc_status (inventory_lots db_exhausted_and_quarantined) = [APPROVED, QUARANTINE] \<and>
   available (calculate_stock db_exhausted_and_quarantined 0) = 50 \<and>
   reserve_inventory db_exhausted_and_quarantined 0 10 =
     (Inl NO_QC_APPROVED_LOT, db_exhausted_and_quarantined)"
proof -
  have h1: "(0::rat) < 10" by simp
  have h2: "get_item db_exhausted_and_quarantined 0 =
     Inr \<lparr>i_id = 0, i_code = ''ITEM-QC'', i_name = ''Test Item'', i_qc_required = True\<rparr>"
    by code_simp
  have h0: "\<not> in_transaction db_exhausted_and_quarantined" by code_simp
  have h3': "list_all (\<lambda>l. \<not> (l_item_id l = 0 \<and> l_qc_status l = APPROVED) \<or>
                  l_received_qty l - issued_qty_of db_exhausted_and_quarantined (l_id l) \<le> 0)
     (inventory_lots db_exhausted_and_quarantined)"
    by code_simp
  then have h3: "\<forall>l \<in> set (inventory_lots db_exhausted_and_quarantined).
             l_item_id l = 0 \<and> l_qc_status l = APPROVED \<longrightarrow>
             l_received_qty l - issued_qty_of db_exhausted_and_quarantined (l_id l) \<le> 0"
    by (auto simp add: list_all_iff)
  have a: "available (calculate_stock db_exhausted_and_quarantined 0) = 50" by code_simp
  have b: "map l_qc_status (inventory_lots db_exhausted_and_quarantined) =
             [APPROVED, QUARANTINE]" by code_simp
  show ?thesis
    using reserve_without_positive_approved_lot[OF h1 h2 h0 h3] h0 h2 h3' a b by simp
qed

end
